theory Spec2Isabelle
  imports Main "HOL-Library.Multiset"
begin

section \<open>Values of a parsed JSON request body\<close>

text \<open>
  \<^verbatim>\<open>bodyParser.json()\<close> leaves the parsed object in \<^verbatim>\<open>req.body\<close>. The handlers
  only destructure two properties of it, \<^verbatim>\<open>name\<close> and \<^verbatim>\<open>description\<close>, test them for
  truthiness and hand them to the data store. The scalar values of JSON are modelled; a
  property that is absent reads as \<open>Undefined\<close>. Of the numbers, the integers that a
  JSON number holds exactly and prints in plain decimal are modelled. Fractions, larger
  numbers, arrays and nested objects are outside the model; all but a zero are truthy.
\<close>

datatype jsval = Undefined | Null | Bool bool | Num int | Str string

fun truthy :: "jsval \<Rightarrow> bool" where
  "truthy Undefined = False"
| "truthy Null = False"
| "truthy (Bool b) = b"
| "truthy (Num n) = (n \<noteq> 0)"
| "truthy (Str s) = (s \<noteq> [])"

text \<open>The JavaScript operator \<^verbatim>\<open>a || b\<close>.\<close>

definition js_or :: "jsval \<Rightarrow> jsval \<Rightarrow> jsval" where
  "js_or a b = (if truthy a then a else b)"

type_synonym jsobject = "(string \<times> jsval) list"

text \<open>Property lookup; of a key that the JSON text repeats, the last occurrence counts.\<close>

definition property :: "jsobject \<Rightarrow> string \<Rightarrow> jsval" where
  "property obj k = (case map_of (rev obj) k of None \<Rightarrow> Undefined | Some v \<Rightarrow> v)"

section \<open>The items table and the statements sent to the store\<close>

text \<open>
  A row of the table that \<^verbatim>\<open>db.init\<close> creates:
  \<^verbatim>\<open>id SERIAL PRIMARY KEY, name TEXT NOT NULL, description TEXT,
  created_at TIMESTAMP DEFAULT CURRENT_TIMESTAMP\<close>.
\<close>

record item =
  item_id :: int
  item_name :: string
  item_description :: "string option"
  item_created_at :: nat

text \<open>
  The six statement texts of the source, each with its positional parameters.
  \<^verbatim>\<open>req.params.id\<close> is always a string, the body's properties are JSON values.
\<close>

datatype statement =
    CREATE_TABLE_IF_NOT_EXISTS
  | SELECT_ORDER_BY_ID
  | SELECT_WHERE_ID string
  | INSERT_RETURNING jsval jsval
  | UPDATE_RETURNING jsval jsval string
  | DELETE_WHERE_ID string

record qresult =
  rows :: "item list"
  rowCount :: nat

datatype db_error =
    ConnectionRefused
  | UndefinedTable
  | NotNullViolation
  | UniqueViolation
  | InvalidTextRepresentation
  | NumericValueOutOfRange
  | SequenceLimitExceeded

text \<open>
  \<^verbatim>\<open>db.query(text, params)\<close> is \<^verbatim>\<open>pool.query\<close>: it either throws or resolves to a
  result, and it may change the store. The handlers are written against any such
  function; \<open>pg_query\<close> below is the store that the SQL of the source describes.
\<close>

type_synonym 's database = "statement \<Rightarrow> 's \<Rightarrow> (db_error + qresult) \<times> 's"

section \<open>Responses\<close>

text \<open>
  What is sent: one of the JSON bodies of the handlers, a text, nothing, or the page
  that the framework itself writes when no route matches or a middleware fails.
\<close>

datatype payload =
    Json_items "item list"
  | Json_item item
  | Json_undefined
  | Json_error string
  | Json_status string
  | Text string
  | Error_page
  | No_body

record response =
  statusCode :: nat
  sent :: payload

definition json :: "nat \<Rightarrow> payload \<Rightarrow> response" where
  "json code p = \<lparr>statusCode = code, sent = p\<rparr>"

text \<open>\<^verbatim>\<open>rows[0]\<close>, which is \<^verbatim>\<open>undefined\<close> on an empty array.\<close>

definition first_row :: "item list \<Rightarrow> payload" where
  "first_row rs = (case rs of [] \<Rightarrow> Json_undefined | r # _ \<Rightarrow> Json_item r)"

section \<open>The CRUD handlers\<close>

text \<open>\<^verbatim>\<open>app.get('/items')\<close>\<close>

definition get_items :: "'s database \<Rightarrow> 's \<Rightarrow> response \<times> 's" where
  "get_items db s =
     (case db SELECT_ORDER_BY_ID s of
        (Inr r, s') \<Rightarrow> (json 200 (Json_items (rows r)), s')
      | (Inl err, s') \<Rightarrow> (json 500 (Json_error ''db error''), s'))"

text \<open>\<^verbatim>\<open>app.get('/items/:id')\<close>\<close>

definition get_item :: "'s database \<Rightarrow> string \<Rightarrow> 's \<Rightarrow> response \<times> 's" where
  "get_item db ident s =
     (case db (SELECT_WHERE_ID ident) s of
        (Inr r, s') \<Rightarrow>
          (if length (rows r) = 0 then (json 404 (Json_error ''not found''), s')
           else (json 200 (first_row (rows r)), s'))
      | (Inl err, s') \<Rightarrow> (json 500 (Json_error ''db error''), s'))"

text \<open>\<^verbatim>\<open>app.post('/items')\<close>\<close>

definition post_item :: "'s database \<Rightarrow> jsobject \<Rightarrow> 's \<Rightarrow> response \<times> 's" where
  "post_item db body s =
     (let name = property body ''name''; description = property body ''description'' in
      if \<not> truthy name then (json 400 (Json_error ''name required''), s)
      else
        (case db (INSERT_RETURNING name (js_or description Null)) s of
           (Inr r, s') \<Rightarrow> (json 201 (first_row (rows r)), s')
         | (Inl err, s') \<Rightarrow> (json 500 (Json_error ''db error''), s')))"

text \<open>\<^verbatim>\<open>app.put('/items/:id')\<close>\<close>

definition put_item :: "'s database \<Rightarrow> string \<Rightarrow> jsobject \<Rightarrow> 's \<Rightarrow> response \<times> 's" where
  "put_item db ident body s =
     (let name = property body ''name''; description = property body ''description'' in
      case db (UPDATE_RETURNING name description ident) s of
        (Inr r, s') \<Rightarrow>
          (if length (rows r) = 0 then (json 404 (Json_error ''not found''), s')
           else (json 200 (first_row (rows r)), s'))
      | (Inl err, s') \<Rightarrow> (json 500 (Json_error ''db error''), s'))"

text \<open>\<^verbatim>\<open>app.delete('/items/:id')\<close>\<close>

definition delete_item :: "'s database \<Rightarrow> string \<Rightarrow> 's \<Rightarrow> response \<times> 's" where
  "delete_item db ident s =
     (case db (DELETE_WHERE_ID ident) s of
        (Inr r, s') \<Rightarrow>
          (if rowCount r = 0 then (json 404 (Json_error ''not found''), s')
           else (json 204 No_body, s'))
      | (Inl err, s') \<Rightarrow> (json 500 (Json_error ''db error''), s'))"

section \<open>The store that the SQL describes\<close>

text \<open>
  The database server is not part of the repository; what the handlers rely on is fixed
  by the statement texts and by the table definition in \<^verbatim>\<open>db.init\<close>. The model keeps
  the table as a list of rows in an arbitrary physical order, the last value of the
  sequence behind \<^verbatim>\<open>id SERIAL\<close>, the server's clock, and whether the server answers
  at all.
\<close>

record pg =
  accepting :: bool
  items :: "item list option"
  items_id_seq :: int
  current_timestamp :: nat

text \<open>
  The \<^verbatim>\<open>id\<close> column is a 32-bit integer and the parameter compared with it arrives as
  text, which the server reads as an integer: blanks, an optional sign, decimal digits,
  blanks. Any other text is rejected as an invalid literal, and a value outside the
  32-bit range as out of range. Both are errors of the statement, and the handlers do
  not tell them apart. (Notations that only some versions of the server read, such as
  hexadecimal digits, are not read here.)
\<close>

definition digit :: "char \<Rightarrow> int option" where
  "digit c = (let n = (of_char c :: int) in if 48 \<le> n \<and> n \<le> 57 then Some (n - 48) else None)"

definition is_space :: "char \<Rightarrow> bool" where
  "is_space c = (let n = (of_char c :: nat) in n = 32 \<or> (9 \<le> n \<and> n \<le> 13))"

fun decimal :: "int \<Rightarrow> string \<Rightarrow> int option" where
  "decimal acc [] = Some acc"
| "decimal acc (c # cs) = (case digit c of None \<Rightarrow> None | Some d \<Rightarrow> decimal (10 * acc + d) cs)"

definition int4in :: "string \<Rightarrow> db_error + int" where
  "int4in s =
     (let t = dropWhile is_space s;
          neg = (t \<noteq> [] \<and> hd t = CHR ''-'');
          u = (if t \<noteq> [] \<and> (hd t = CHR ''-'' \<or> hd t = CHR ''+'') then tl t else t);
          ds = takeWhile (\<lambda>c. digit c \<noteq> None) u;
          rest = dropWhile (\<lambda>c. digit c \<noteq> None) u
      in if ds = [] \<or> \<not> list_all is_space rest then Inl InvalidTextRepresentation
         else (case decimal 0 ds of
                 None \<Rightarrow> Inl InvalidTextRepresentation
               | Some n \<Rightarrow>
                   (let v = (if neg then - n else n)
                    in if v < - 2147483648 \<or> 2147483647 < v then Inl NumericValueOutOfRange
                       else Inr v)))"

text \<open>
  A JSON value bound to a \<^verbatim>\<open>TEXT\<close> parameter: the driver sends \<^verbatim>\<open>null\<close> and
  \<^verbatim>\<open>undefined\<close> as SQL NULL, a string as it is, and anything else through
  \<^verbatim>\<open>toString()\<close>.
\<close>

fun show_nat :: "nat \<Rightarrow> string" where
  "show_nat n =
     (if n < 10 then [char_of (48 + n)]
      else show_nat (n div 10) @ [char_of (48 + n mod 10)])"

declare show_nat.simps [simp del]

definition show_int :: "int \<Rightarrow> string" where
  "show_int i = (if i < 0 then CHR ''-'' # show_nat (nat (- i)) else show_nat (nat i))"

fun to_text :: "jsval \<Rightarrow> string option" where
  "to_text Undefined = None"
| "to_text Null = None"
| "to_text (Bool b) = Some (if b then ''true'' else ''false'')"
| "to_text (Num n) = Some (show_int n)"
| "to_text (Str s) = Some s"

definition no_rows :: qresult where
  "no_rows = \<lparr>rows = [], rowCount = 0\<rparr>"

text \<open>\<^verbatim>\<open>SELECT * FROM items ORDER BY id\<close>\<close>

definition pg_select_all :: "item list \<Rightarrow> pg \<Rightarrow> (db_error + qresult) \<times> pg" where
  "pg_select_all t s = (Inr \<lparr>rows = sort_key item_id t, rowCount = length t\<rparr>, s)"

text \<open>\<^verbatim>\<open>SELECT * FROM items WHERE id=$1\<close>\<close>

definition pg_select :: "string \<Rightarrow> item list \<Rightarrow> pg \<Rightarrow> (db_error + qresult) \<times> pg" where
  "pg_select ident t s =
     (case int4in ident of
        Inl e \<Rightarrow> (Inl e, s)
      | Inr i \<Rightarrow>
          (let hit = filter (\<lambda>r. item_id r = i) t
           in (Inr \<lparr>rows = hit, rowCount = length hit\<rparr>, s)))"

text \<open>
  \<^verbatim>\<open>INSERT INTO items(name, description) VALUES($1, $2) RETURNING *\<close>. The sequence
  is advanced first and keeps its new value when the insert is rejected afterwards.
\<close>

definition pg_insert :: "jsval \<Rightarrow> jsval \<Rightarrow> item list \<Rightarrow> pg \<Rightarrow> (db_error + qresult) \<times> pg" where
  "pg_insert name description t s =
     (let i = items_id_seq s + 1 in
      if 2147483647 < i then (Inl SequenceLimitExceeded, s)
      else
        (let s1 = s\<lparr>items_id_seq := i\<rparr> in
         case to_text name of
           None \<Rightarrow> (Inl NotNullViolation, s1)
         | Some n \<Rightarrow>
             if i \<in> set (map item_id t) then (Inl UniqueViolation, s1)
             else
               (let r = \<lparr>item_id = i, item_name = n, item_description = to_text description,
                          item_created_at = current_timestamp s\<rparr>
                in (Inr \<lparr>rows = [r], rowCount = 1\<rparr>, s1\<lparr>items := Some (t @ [r])\<rparr>))))"

text \<open>\<^verbatim>\<open>UPDATE items SET name=$1, description=$2 WHERE id=$3 RETURNING *\<close>\<close>

definition pg_update ::
  "jsval \<Rightarrow> jsval \<Rightarrow> string \<Rightarrow> item list \<Rightarrow> pg \<Rightarrow> (db_error + qresult) \<times> pg" where
  "pg_update name description ident t s =
     (case int4in ident of
        Inl e \<Rightarrow> (Inl e, s)
      | Inr i \<Rightarrow>
          (let hit = filter (\<lambda>r. item_id r = i) t in
           if hit = [] then (Inr no_rows, s)
           else
             (case to_text name of
                None \<Rightarrow> (Inl NotNullViolation, s)
              | Some n \<Rightarrow>
                  (let upd = (\<lambda>r. r\<lparr>item_name := n, item_description := to_text description\<rparr>)
                   in (Inr \<lparr>rows = map upd hit, rowCount = length hit\<rparr>,
                       s\<lparr>items := Some (map (\<lambda>r. if item_id r = i then upd r else r) t)\<rparr>)))))"

text \<open>\<^verbatim>\<open>DELETE FROM items WHERE id=$1\<close>\<close>

definition pg_delete :: "string \<Rightarrow> item list \<Rightarrow> pg \<Rightarrow> (db_error + qresult) \<times> pg" where
  "pg_delete ident t s =
     (case int4in ident of
        Inl e \<Rightarrow> (Inl e, s)
      | Inr i \<Rightarrow>
          (Inr \<lparr>rows = [], rowCount = length (filter (\<lambda>r. item_id r = i) t)\<rparr>,
           s\<lparr>items := Some (filter (\<lambda>r. item_id r \<noteq> i) t)\<rparr>))"

text \<open>
  \<^verbatim>\<open>pool.query\<close> against this store. A server that does not answer fails every
  statement; before the table exists every statement but \<^verbatim>\<open>CREATE TABLE\<close> fails.
\<close>

definition pg_query :: "pg database" where
  "pg_query q s =
     (if \<not> accepting s then (Inl ConnectionRefused, s)
      else
        (case q of
           CREATE_TABLE_IF_NOT_EXISTS \<Rightarrow>
             (case items s of
                None \<Rightarrow> (Inr no_rows, s\<lparr>items := Some [], items_id_seq := 0\<rparr>)
              | Some t \<Rightarrow> (Inr no_rows, s))
         | _ \<Rightarrow>
             (case items s of
                None \<Rightarrow> (Inl UndefinedTable, s)
              | Some t \<Rightarrow>
                  (case q of
                     SELECT_ORDER_BY_ID \<Rightarrow> pg_select_all t s
                   | SELECT_WHERE_ID ident \<Rightarrow> pg_select ident t s
                   | INSERT_RETURNING name description \<Rightarrow> pg_insert name description t s
                   | UPDATE_RETURNING name description ident \<Rightarrow> pg_update name description ident t s
                   | DELETE_WHERE_ID ident \<Rightarrow> pg_delete ident t s
                   | CREATE_TABLE_IF_NOT_EXISTS \<Rightarrow> (Inr no_rows, s)))))"

text \<open>
  A store that serves requests: it answers, the table exists, and every id in the table
  was handed out by the sequence, which has values left.
\<close>

definition serving :: "pg \<Rightarrow> item list \<Rightarrow> bool" where
  "serving s t \<longleftrightarrow>
     accepting s \<and> items s = Some t \<and> list_all (\<lambda>r. item_id r \<le> items_id_seq s) t \<and>
     items_id_seq s < 2147483647"

section \<open>The startup sequencer\<close>

text \<open>\<^verbatim>\<open>db.init\<close>: one \<^verbatim>\<open>CREATE TABLE IF NOT EXISTS\<close> through the pool.\<close>

definition init :: "'s database \<Rightarrow> 's \<Rightarrow> (db_error + unit) \<times> 's" where
  "init db s = (case db CREATE_TABLE_IF_NOT_EXISTS s of
                  (Inr r, s') \<Rightarrow> (Inr (), s')
                | (Inl err, s') \<Rightarrow> (Inl err, s'))"

text \<open>
  What the sequencer does, in order: a call of \<^verbatim>\<open>db.init\<close>, the two log lines, and the
  timer of \<^verbatim>\<open>setTimeout\<close> with its delay in milliseconds.
\<close>

datatype event = Init_call | Log_initialized | Log_waiting nat | Sleep nat

text \<open>
  The loop \<^verbatim>\<open>while (tries < 12)\<close> of the start-up function. While it sleeps the rest
  of the world goes on: \<open>world ms\<close> is what happens to the store during a wait of
  \<open>ms\<close> milliseconds.
\<close>

function startup_loop ::
  "'s database \<Rightarrow> (nat \<Rightarrow> 's \<Rightarrow> 's) \<Rightarrow> nat \<Rightarrow> 's \<Rightarrow> event list \<times> 's" where
  "startup_loop db world tries s =
     (if tries < 12 then
        (case init db s of
           (Inr u, s') \<Rightarrow> ([Init_call, Log_initialized], s')
         | (Inl err, s') \<Rightarrow>
             (case startup_loop db world (tries + 1) (world 2000 s') of
                (tr, s'') \<Rightarrow> (Init_call # Log_waiting (tries + 1) # Sleep 2000 # tr, s'')))
      else ([], s))"
  by pat_completeness auto
termination
  by (relation "measure (\<lambda>(db, world, tries, s). 12 - tries)") auto

declare startup_loop.simps [simp del]

definition startup :: "'s database \<Rightarrow> (nat \<Rightarrow> 's \<Rightarrow> 's) \<Rightarrow> 's \<Rightarrow> event list \<times> 's" where
  "startup db world s = startup_loop db world 0 s"

text \<open>The store as the \<open>j\<close>-th call of \<^verbatim>\<open>db.init\<close> finds it, when every earlier call failed.\<close>

definition before_attempt :: "'s database \<Rightarrow> (nat \<Rightarrow> 's \<Rightarrow> 's) \<Rightarrow> nat \<Rightarrow> 's \<Rightarrow> 's" where
  "before_attempt db world j s = ((\<lambda>x. world 2000 (snd (init db x))) ^^ j) s"

definition init_fails :: "'s database \<Rightarrow> 's \<Rightarrow> bool" where
  "init_fails db s = isl (fst (init db s))"

text \<open>The trace of \<open>k\<close> failed rounds, the first of them with the counter at \<open>tries\<close>.\<close>

fun failed_rounds :: "nat \<Rightarrow> nat \<Rightarrow> event list" where
  "failed_rounds tries 0 = []"
| "failed_rounds tries (Suc k) =
     Init_call # Log_waiting (tries + 1) # Sleep 2000 # failed_rounds (tries + 1) k"

section \<open>The connection pool\<close>

text \<open>
  \<^verbatim>\<open>process.env\<close> maps a variable to its text, if it is set. \<^verbatim>\<open>process.env.X || d\<close>
  takes \<open>d\<close> for a variable that is unset or empty.
\<close>

type_synonym env = "string \<Rightarrow> string option"

definition env_or :: "string option \<Rightarrow> string \<Rightarrow> string" where
  "env_or v d = (case v of None \<Rightarrow> d | Some x \<Rightarrow> if x = [] then d else x)"

text \<open>The port is either the literal 5432 or \<^verbatim>\<open>Number\<close> of the variable's text.\<close>

datatype port = Port nat | Number_of string

record pool_options =
  pool_host :: string
  pool_port :: port
  pool_user :: string
  pool_password :: string
  pool_database :: string
  pool_max :: nat

definition pool :: "env \<Rightarrow> pool_options" where
  "pool e =
     \<lparr>pool_host = env_or (e ''POSTGRES_HOST'') ''db'',
      pool_port = (case e ''POSTGRES_PORT'' of
                     None \<Rightarrow> Port 5432
                   | Some x \<Rightarrow> if x = [] then Port 5432 else Number_of x),
      pool_user = env_or (e ''POSTGRES_USER'') ''syvora'',
      pool_password = env_or (e ''POSTGRES_PASSWORD'') ''syvora_pass'',
      pool_database = env_or (e ''POSTGRES_DB'') ''syvoradb'',
      pool_max = 5\<rparr>"

text \<open>
  The pool of the database driver, as far as the number of connections goes. It is not
  code of the repository, which only constructs it with \<^verbatim>\<open>max: 5\<close> and calls
  \<^verbatim>\<open>pool.query\<close>; the model follows what the driver's pool does when a query asks for
  a connection, when a query ends and hands its connection back, and when an idle
  connection times out. Requests are numbered.
\<close>

record pool_state =
  clients :: nat
  idle :: nat
  in_use :: "nat list"
  pendingQueue :: "nat list"

definition new_pool :: pool_state where
  "new_pool = \<lparr>clients = 0, idle = 0, in_use = [], pendingQueue = []\<rparr>"

text \<open>
  Serving the queue: the request that waits longest gets an idle connection, or a new
  one when the pool is not full; when neither exists it goes on waiting.
\<close>

definition pulseQueue :: "nat \<Rightarrow> pool_state \<Rightarrow> pool_state" where
  "pulseQueue mx p =
     (case pendingQueue p of
        [] \<Rightarrow> p
      | r # q \<Rightarrow>
          if idle p = 0 \<and> mx \<le> clients p then p
          else if 0 < idle p then
            p\<lparr>idle := idle p - 1, in_use := in_use p @ [r], pendingQueue := q\<rparr>
          else
            p\<lparr>clients := clients p + 1, in_use := in_use p @ [r], pendingQueue := q\<rparr>)"

datatype pool_event = Query nat | Finished nat bool | Idle_timeout

text \<open>
  \<open>Query r\<close>: request \<open>r\<close> asks for a connection; it is queued when the pool is full
  or has an idle connection (which the queue then hands out), and gets a new connection
  otherwise. \<open>Finished r ok\<close>: the query of \<open>r\<close> ended; its connection becomes idle, or
  is closed after an error, and the queue is served. \<open>Idle_timeout\<close>: an idle
  connection is closed.
\<close>

definition pool_step :: "nat \<Rightarrow> pool_state \<Rightarrow> pool_event \<Rightarrow> pool_state" where
  "pool_step mx p ev =
     (case ev of
        Query r \<Rightarrow>
          if mx \<le> clients p \<or> 0 < idle p then
            pulseQueue mx (p\<lparr>pendingQueue := pendingQueue p @ [r]\<rparr>)
          else p\<lparr>clients := clients p + 1, in_use := in_use p @ [r]\<rparr>
      | Finished r ok \<Rightarrow>
          if r \<in> set (in_use p) then
            pulseQueue mx
              (if ok then p\<lparr>in_use := remove1 r (in_use p), idle := idle p + 1\<rparr>
               else p\<lparr>in_use := remove1 r (in_use p), clients := clients p - 1\<rparr>)
          else p
      | Idle_timeout \<Rightarrow>
          if 0 < idle p then p\<lparr>idle := idle p - 1, clients := clients p - 1\<rparr> else p)"

text \<open>The pool that the repository constructs, after a sequence of events.\<close>

definition pool_after :: "env \<Rightarrow> pool_event list \<Rightarrow> pool_state" where
  "pool_after e evs = foldl (pool_step (pool_max (pool e))) new_pool evs"

text \<open>Every connection is in use or idle, and there are no more than the maximum.\<close>

definition pool_inv :: "nat \<Rightarrow> pool_state \<Rightarrow> bool" where
  "pool_inv mx p \<longleftrightarrow> clients p = length (in_use p) + idle p \<and> clients p \<le> mx"

section \<open>Routing and the timing middleware\<close>

text \<open>
  A request as the application sees it: the verb, the path as it was sent (without the
  query string, in ASCII, percent-escapes still in place), and what
  \<^verbatim>\<open>bodyParser.json()\<close> makes of the body: the parsed object, or the error it passes on,
  with the status the error carries (400 for text that is not JSON, 413 for a body over
  the size limit, 415 for an encoding it does not read).
\<close>

datatype http_method = GET | HEAD | POST | PUT | DELETE | OPTIONS | Other string

datatype parsed_body = Rejected nat | Parsed jsobject

record request =
  req_method :: http_method
  req_path :: string
  req_body :: parsed_body

text \<open>
  Route paths are matched against the path as it was sent, the way the framework does
  by default: segment by segment, letters compared without case, one trailing slash
  ignored, and \<^verbatim>\<open>:id\<close> standing for one non-empty segment.
\<close>

fun split_on :: "char \<Rightarrow> string \<Rightarrow> string list" where
  "split_on c [] = [[]]"
| "split_on c (x # xs) =
     (if x = c then [] # split_on c xs
      else (case split_on c xs of [] \<Rightarrow> [[x]] | w # ws \<Rightarrow> (x # w) # ws))"

definition segments :: "string \<Rightarrow> string list" where
  "segments p = (let ss = split_on CHR ''/'' p
                 in if 2 < length ss \<and> last ss = [] then butlast ss else ss)"

definition lower :: "char \<Rightarrow> char" where
  "lower c = (let n = (of_char c :: nat) in if 65 \<le> n \<and> n \<le> 90 then char_of (n + 32) else c)"

fun match_segments :: "string list \<Rightarrow> string list \<Rightarrow> string list option" where
  "match_segments [] [] = Some []"
| "match_segments (p # ps) (x # xs) =
     (if p \<noteq> [] \<and> hd p = CHR '':'' then
        (if x = [] then None else map_option ((#) x) (match_segments ps xs))
      else if map lower p = map lower x then match_segments ps xs
      else None)"
| "match_segments ps xs = None"

text \<open>
  \<^verbatim>\<open>decodeURIComponent\<close>, which the framework applies to the text captured for a route
  parameter. A percent sign must be followed by two hexadecimal digits; the bytes
  escaped this way must be ASCII or form well-formed UTF-8, each byte of a sequence
  escaped. The result is the text in UTF-8, as the driver sends it to the store.
  \<open>None\<close> is the \<^verbatim>\<open>URIError\<close>.
\<close>

definition hex_digit :: "char \<Rightarrow> nat option" where
  "hex_digit c =
     (let n = (of_char c :: nat)
      in if 48 \<le> n \<and> n \<le> 57 then Some (n - 48)
         else if 65 \<le> n \<and> n \<le> 70 then Some (n - 55)
         else if 97 \<le> n \<and> n \<le> 102 then Some (n - 87)
         else None)"

text \<open>The text as a sequence of escaped bytes (\<open>Inl\<close>) and plain characters (\<open>Inr\<close>).\<close>

fun escapes :: "string \<Rightarrow> (nat + char) list option" where
  "escapes [] = Some []"
| "escapes (c # cs) =
     (if c = CHR ''%'' then
        (case cs of
           a # b # rest \<Rightarrow>
             (case (hex_digit a, hex_digit b) of
                (Some h, Some l) \<Rightarrow> map_option ((#) (Inl (16 * h + l))) (escapes rest)
              | _ \<Rightarrow> None)
         | _ \<Rightarrow> None)
      else map_option ((#) (Inr c)) (escapes cs))"

definition trail :: "nat \<Rightarrow> bool" where
  "trail b \<longleftrightarrow> 128 \<le> b \<and> b \<le> 191"

text \<open>The well-formed sequences of two, three and four bytes.\<close>

definition two_bytes :: "nat \<Rightarrow> nat \<Rightarrow> bool" where
  "two_bytes a b \<longleftrightarrow> 194 \<le> a \<and> a \<le> 223 \<and> trail b"

definition three_bytes :: "nat \<Rightarrow> nat \<Rightarrow> nat \<Rightarrow> bool" where
  "three_bytes a b c \<longleftrightarrow>
     (a = 224 \<and> 160 \<le> b \<and> b \<le> 191 \<or>
      225 \<le> a \<and> a \<le> 236 \<and> trail b \<or>
      a = 237 \<and> 128 \<le> b \<and> b \<le> 159 \<or>
      238 \<le> a \<and> a \<le> 239 \<and> trail b) \<and> trail c"

definition four_bytes :: "nat \<Rightarrow> nat \<Rightarrow> nat \<Rightarrow> nat \<Rightarrow> bool" where
  "four_bytes a b c d \<longleftrightarrow>
     (a = 240 \<and> 144 \<le> b \<and> b \<le> 191 \<or>
      241 \<le> a \<and> a \<le> 243 \<and> trail b \<or>
      a = 244 \<and> 128 \<le> b \<and> b \<le> 143) \<and> trail c \<and> trail d"

fun utf8 :: "(nat + char) list \<Rightarrow> string option" where
  "utf8 [] = Some []"
| "utf8 (Inr c # ts) = map_option ((#) c) (utf8 ts)"
| "utf8 [Inl a] = (if a < 128 then Some [char_of a] else None)"
| "utf8 (Inl a # Inr c # ts) =
     (if a < 128 then map_option ((#) (char_of a)) (utf8 (Inr c # ts)) else None)"
| "utf8 (Inl a # Inl b # ts) =
     (if a < 128 then map_option ((#) (char_of a)) (utf8 (Inl b # ts))
      else if two_bytes a b then map_option ((@) [char_of a, char_of b]) (utf8 ts)
      else
        (case ts of
           Inl c # ts' \<Rightarrow>
             if three_bytes a b c then
               map_option ((@) [char_of a, char_of b, char_of c]) (utf8 ts')
             else
               (case ts' of
                  Inl d # ts'' \<Rightarrow>
                    if four_bytes a b c d then
                      map_option ((@) [char_of a, char_of b, char_of c, char_of d]) (utf8 ts'')
                    else None
                | _ \<Rightarrow> None)
         | _ \<Rightarrow> None))"

definition decodeURIComponent :: "string \<Rightarrow> string option" where
  "decodeURIComponent s = (case escapes s of None \<Rightarrow> None | Some ts \<Rightarrow> utf8 ts)"

text \<open>
  Matching a route: the path does not match, or it matches and a parameter cannot be
  decoded, or it matches with the decoded parameters.
\<close>

datatype matching = No_match | Bad_param | Params "string list"

definition match_route :: "string \<Rightarrow> string \<Rightarrow> matching" where
  "match_route route p =
     (case match_segments (split_on CHR ''/'' route) (segments p) of
        None \<Rightarrow> No_match
      | Some raw \<Rightarrow>
          (case those (map decodeURIComponent raw) of
             None \<Rightarrow> Bad_param
           | Some ps \<Rightarrow> Params ps))"

text \<open>A route registered with \<^verbatim>\<open>app.get\<close> also answers \<^verbatim>\<open>HEAD\<close>.\<close>

definition handles :: "http_method \<Rightarrow> http_method \<Rightarrow> bool" where
  "handles m v \<longleftrightarrow> v = m \<or> (m = GET \<and> v = HEAD)"

definition on_route :: "http_method \<Rightarrow> string \<Rightarrow> request \<Rightarrow> bool" where
  "on_route m route req \<longleftrightarrow>
     handles m (req_method req) \<and>
     (case match_route route (req_path req) of Params ps \<Rightarrow> True | _ \<Rightarrow> False)"

text \<open>\<^verbatim>\<open>req.params.id\<close> on a route with one parameter.\<close>

definition params_id :: "string \<Rightarrow> request \<Rightarrow> string" where
  "params_id route req =
     (case match_route route (req_path req) of Params (x # xs) \<Rightarrow> x | _ \<Rightarrow> [])"

text \<open>The routes of the application, in their order of registration.\<close>

definition registered :: "(http_method \<times> string) list" where
  "registered =
     [(GET, ''/metrics''), (GET, ''/items''), (GET, ''/items/:id''), (POST, ''/items''),
      (PUT, ''/items/:id''), (DELETE, ''/items/:id''), (GET, ''/healthz'')]"

text \<open>
  What the framework answers when no route handled the request: 400 when a parameter
  of a route on this path could not be decoded; for \<^verbatim>\<open>OPTIONS\<close> on the path of some
  route, 200 with the verbs of the routes on this path; 404 otherwise.
\<close>

definition method_name :: "http_method \<Rightarrow> string" where
  "method_name m =
     (case m of GET \<Rightarrow> ''GET'' | HEAD \<Rightarrow> ''HEAD'' | POST \<Rightarrow> ''POST'' | PUT \<Rightarrow> ''PUT''
      | DELETE \<Rightarrow> ''DELETE'' | OPTIONS \<Rightarrow> ''OPTIONS'' | Other x \<Rightarrow> x)"

definition allow :: "string \<Rightarrow> http_method list" where
  "allow p =
     rev (remdups (rev (concat (map (\<lambda>(m, route).
        (case match_route route p of
           Params ps \<Rightarrow> if m = GET then [GET, HEAD] else [m]
         | _ \<Rightarrow> [])) registered))))"

fun join :: "string list \<Rightarrow> string" where
  "join [] = []"
| "join [x] = x"
| "join (x # y # ys) = x @ '','' @ join (y # ys)"

definition unhandled :: "request \<Rightarrow> response" where
  "unhandled req =
     (if list_ex (\<lambda>(m, route). match_route route (req_path req) = Bad_param) registered
      then json 400 Error_page
      else if req_method req = OPTIONS \<and> allow (req_path req) \<noteq> []
      then json 200 (Text (join (map method_name (allow (req_path req)))))
      else json 404 Error_page)"

text \<open>
  The labels of one observation of the histogram
  \<^verbatim>\<open>http_request_duration_seconds\<close>: method, route and code. The observed duration
  itself is wall-clock time and is left out.
\<close>

type_synonym observation = "http_method \<times> string \<times> nat"

text \<open>
  \<^verbatim>\<open>app.get('/metrics')\<close>. The text comes from the metrics library, which may also
  throw: \<open>render\<close> gives the text or what was thrown, taken as a text.
\<close>

definition metrics :: "(observation list \<Rightarrow> string + string) \<Rightarrow> observation list \<Rightarrow> response" where
  "metrics render obs = (case render obs of Inr txt \<Rightarrow> json 200 (Text txt) | Inl ex \<Rightarrow> json 500 (Text ex))"

text \<open>
  The routes registered after the timing middleware, in their order of registration.
  The result carries \<^verbatim>\<open>req.route.path\<close> when a route handled the request; otherwise
  the framework answers itself.
\<close>

definition routes :: "'s database \<Rightarrow> request \<Rightarrow> jsobject \<Rightarrow> 's \<Rightarrow> string option \<times> response \<times> 's" where
  "routes db req body s =
     (if on_route GET ''/items'' req then (Some ''/items'', get_items db s)
      else if on_route GET ''/items/:id'' req then
        (Some ''/items/:id'', get_item db (params_id ''/items/:id'' req) s)
      else if on_route POST ''/items'' req then (Some ''/items'', post_item db body s)
      else if on_route PUT ''/items/:id'' req then
        (Some ''/items/:id'', put_item db (params_id ''/items/:id'' req) body s)
      else if on_route DELETE ''/items/:id'' req then
        (Some ''/items/:id'', delete_item db (params_id ''/items/:id'' req) s)
      else if on_route GET ''/healthz'' req then (Some ''/healthz'', json 200 (Json_status ''ok''), s)
      else (None, unhandled req, s))"

text \<open>
  The timing middleware: it lets the request through to whatever is registered after
  it and, when the response has been sent, observes the labels
  \<^verbatim>\<open>{method, route: req.route ? req.route.path : req.path, code}\<close>.
\<close>

definition timed ::
  "(request \<Rightarrow> jsobject \<Rightarrow> 's \<Rightarrow> string option \<times> response \<times> 's) \<Rightarrow>
   request \<Rightarrow> jsobject \<Rightarrow> 's \<times> observation list \<Rightarrow> response \<times> 's \<times> observation list" where
  "timed next req body st =
     (case st of (s, obs) \<Rightarrow>
        (case next req body s of (route, res, s') \<Rightarrow>
           (res, s',
            obs @ [(req_method req,
                    (case route of Some r \<Rightarrow> r | None \<Rightarrow> req_path req),
                    statusCode res)])))"

text \<open>The answer to a \<^verbatim>\<open>HEAD\<close> request goes out without its body.\<close>

definition respond :: "request \<Rightarrow> response \<Rightarrow> response" where
  "respond req res = (if req_method req = HEAD then res\<lparr>sent := No_body\<rparr> else res)"

text \<open>
  The status with which the framework answers an error passed on by a middleware: the
  status the error carries when that is an error status, 500 otherwise.
\<close>

definition error_status :: "nat \<Rightarrow> nat" where
  "error_status code = (if 400 \<le> code \<and> code < 600 then code else 500)"

text \<open>
  The application, layer by layer in the order of registration: the body parser, the
  \<^verbatim>\<open>/metrics\<close> route, the timing middleware, and the routes behind it. (The two
  layers that only set headers and write the access log change nothing modelled here.)
\<close>

definition app ::
  "'s database \<Rightarrow> (observation list \<Rightarrow> string + string) \<Rightarrow> request \<Rightarrow>
   's \<times> observation list \<Rightarrow> response \<times> 's \<times> observation list" where
  "app db render req st =
     (case req_body req of
        Rejected code \<Rightarrow> (respond req (json (error_status code) Error_page), st)
      | Parsed body \<Rightarrow>
          if on_route GET ''/metrics'' req then (respond req (metrics render (snd st)), st)
          else (case timed (routes db) req body st of (res, st') \<Rightarrow> (respond req res, st')))"

section \<open>Stores, bodies and requests used as examples\<close>

definition fresh :: pg where
  "fresh = \<lparr>accepting = True, items = Some [], items_id_seq = 0, current_timestamp = 7\<rparr>"

definition down :: pg where
  "down = \<lparr>accepting = False, items = None, items_id_seq = 0, current_timestamp = 7\<rparr>"

definition widget :: item where
  "widget = \<lparr>item_id = 1, item_name = ''widget'', item_description = Some ''a widget'',
             item_created_at = 7\<rparr>"

definition gadget :: item where
  "gadget = \<lparr>item_id = 2, item_name = ''gadget'', item_description = None, item_created_at = 8\<rparr>"

definition stocked :: pg where
  "stocked = \<lparr>accepting = True, items = Some [gadget, widget], items_id_seq = 2,
              current_timestamp = 9\<rparr>"

definition widget_body :: jsobject where
  "widget_body = [(''name'', Str ''widget''), (''description'', Str ''a widget'')]"

definition blank_description_body :: jsobject where
  "blank_description_body = [(''name'', Str ''widget''), (''description'', Str [])]"

definition blank_name_body :: jsobject where
  "blank_name_body = [(''name'', Str []), (''description'', Str ''a widget'')]"

definition still :: "nat \<Rightarrow> pg \<Rightarrow> pg" where
  "still ms s = s"

definition comes_up :: "nat \<Rightarrow> pg \<Rightarrow> pg" where
  "comes_up ms s = s\<lparr>accepting := True\<rparr>"

definition all_set_to_10 :: env where
  "all_set_to_10 v = Some ''10''"

definition plain :: "observation list \<Rightarrow> string + string" where
  "plain obs = Inr (concat (map (\<lambda>(m, route, code). route @ '' '') obs))"

definition metrics_request :: request where
  "metrics_request = \<lparr>req_method = GET, req_path = ''/metrics'', req_body = Parsed []\<rparr>"

definition metrics_head_request :: request where
  "metrics_head_request = \<lparr>req_method = HEAD, req_path = ''/metrics'', req_body = Parsed []\<rparr>"

definition list_request :: request where
  "list_request = \<lparr>req_method = GET, req_path = ''/items'', req_body = Parsed []\<rparr>"

definition unknown_request :: request where
  "unknown_request = \<lparr>req_method = GET, req_path = ''/nowhere'', req_body = Parsed []\<rparr>"

definition escaped_request :: request where
  "escaped_request = \<lparr>req_method = GET, req_path = ''/items/%201'', req_body = Parsed []\<rparr>"

definition busy_pool :: "pool_event list" where
  "busy_pool = [Query 1, Query 2, Query 3, Query 4, Query 5, Query 6, Query 7]"

section \<open>Properties of the handlers\<close>

lemma truthy_cases:
  "\<not> truthy v \<longleftrightarrow> v = Undefined \<or> v = Null \<or> v = Bool False \<or> v = Num 0 \<or> v = Str []"
  by (cases v) auto

text \<open>
  Claim C2. A \<^verbatim>\<open>POST /items\<close> whose body has no \<^verbatim>\<open>name\<close>, or the empty string as
  \<^verbatim>\<open>name\<close>, is answered with 400 and \<^verbatim>\<open>{error: "name required"}\<close>. This holds for
  every store function, and the store handed in is the store handed back: no statement
  was sent, so no row was created.
\<close>

theorem post_without_name_rejected:
  assumes "property body ''name'' = Undefined \<or> property body ''name'' = Str []"
  shows "post_item db body s = (json 400 (Json_error ''name required''), s)"
proof -
  from assms have "\<not> truthy (property body ''name'')"
    by auto
  then show ?thesis
    by (simp add: post_item_def)
qed

text \<open>The empty name and the absent name, posted to a store that holds two items.\<close>

theorem post_without_name_rejected_witness:
  "property blank_name_body ''name'' = Str [] \<and>
   post_item pg_query blank_name_body stocked = (json 400 (Json_error ''name required''), stocked) \<and>
   property [] ''name'' = Undefined \<and>
   post_item pg_query [] stocked = (json 400 (Json_error ''name required''), stocked)"
proof -
  have blank: "property blank_name_body ''name'' = Str []"
    by (simp add: blank_name_body_def property_def)
  have absent: "property [] ''name'' = Undefined"
    by (simp add: property_def)
  show ?thesis
    using blank absent
      post_without_name_rejected [of blank_name_body pg_query stocked]
      post_without_name_rejected [of "[]" pg_query stocked]
    by simp
qed

text \<open>A call of the store that throws leaves a pair of the error and some store.\<close>

lemma failed_call:
  assumes "fst (db q s) = Inl e"
  obtains s' where "db q s = (Inl e, s')"
  using assms by (cases "db q s") auto

text \<open>
  Claim C5. In each of the five handlers, when the statement that the handler sends to
  the store throws, the response is 500 with the body \<^verbatim>\<open>{error: "db error"}\<close>, whatever
  was thrown: the error \<open>e\<close> does not occur in the response. (The create handler
  sends its statement only for a truthy name.)
\<close>

theorem store_failure_gives_500:
  "(fst (db SELECT_ORDER_BY_ID s) = Inl e \<longrightarrow>
      fst (get_items db s) = json 500 (Json_error ''db error'')) \<and>
   (fst (db (SELECT_WHERE_ID ident) s) = Inl e \<longrightarrow>
      fst (get_item db ident s) = json 500 (Json_error ''db error'')) \<and>
   (truthy (property body ''name'') \<and>
    fst (db (INSERT_RETURNING (property body ''name'') (js_or (property body ''description'') Null)) s) = Inl e \<longrightarrow>
      fst (post_item db body s) = json 500 (Json_error ''db error'')) \<and>
   (fst (db (UPDATE_RETURNING (property body ''name'') (property body ''description'') ident) s) = Inl e \<longrightarrow>
      fst (put_item db ident body s) = json 500 (Json_error ''db error'')) \<and>
   (fst (db (DELETE_WHERE_ID ident) s) = Inl e \<longrightarrow>
      fst (delete_item db ident s) = json 500 (Json_error ''db error''))"
proof (intro conjI impI)
  assume "fst (db SELECT_ORDER_BY_ID s) = Inl e"
  then obtain s' where "db SELECT_ORDER_BY_ID s = (Inl e, s')"
    by (rule failed_call)
  then show "fst (get_items db s) = json 500 (Json_error ''db error'')"
    by (simp add: get_items_def)
next
  assume "fst (db (SELECT_WHERE_ID ident) s) = Inl e"
  then obtain s' where "db (SELECT_WHERE_ID ident) s = (Inl e, s')"
    by (rule failed_call)
  then show "fst (get_item db ident s) = json 500 (Json_error ''db error'')"
    by (simp add: get_item_def)
next
  assume a: "truthy (property body ''name'') \<and>
    fst (db (INSERT_RETURNING (property body ''name'') (js_or (property body ''description'') Null)) s) = Inl e"
  then obtain s' where
    "db (INSERT_RETURNING (property body ''name'') (js_or (property body ''description'') Null)) s = (Inl e, s')"
    by (blast elim: failed_call)
  with a show "fst (post_item db body s) = json 500 (Json_error ''db error'')"
    by (simp add: post_item_def)
next
  assume "fst (db (UPDATE_RETURNING (property body ''name'') (property body ''description'') ident) s) = Inl e"
  then obtain s' where
    "db (UPDATE_RETURNING (property body ''name'') (property body ''description'') ident) s = (Inl e, s')"
    by (rule failed_call)
  then show "fst (put_item db ident body s) = json 500 (Json_error ''db error'')"
    by (simp add: put_item_def)
next
  assume "fst (db (DELETE_WHERE_ID ident) s) = Inl e"
  then obtain s' where "db (DELETE_WHERE_ID ident) s = (Inl e, s')"
    by (rule failed_call)
  then show "fst (delete_item db ident s) = json 500 (Json_error ''db error'')"
    by (simp add: delete_item_def)
qed

lemma pg_query_down: "\<not> accepting s \<Longrightarrow> pg_query q s = (Inl ConnectionRefused, s)"
  by (simp add: pg_query_def)

text \<open>All five handlers against a server that does not answer.\<close>

theorem store_failure_gives_500_witness:
  "fst (get_items pg_query down) = json 500 (Json_error ''db error'') \<and>
   fst (get_item pg_query ''1'' down) = json 500 (Json_error ''db error'') \<and>
   fst (post_item pg_query widget_body down) = json 500 (Json_error ''db error'') \<and>
   fst (put_item pg_query ''1'' widget_body down) = json 500 (Json_error ''db error'') \<and>
   fst (delete_item pg_query ''1'' down) = json 500 (Json_error ''db error'')"
proof -
  have off: "\<And>q. fst (pg_query q down) = Inl ConnectionRefused"
    by (simp add: pg_query_down down_def)
  have named: "truthy (property widget_body ''name'')"
    by (simp add: widget_body_def property_def)
  show ?thesis
    using store_failure_gives_500 [of pg_query down ConnectionRefused "''1''" widget_body] off named
    by simp
qed

text \<open>
  Claim C6. \<^verbatim>\<open>PUT /items/:id\<close> does not look at the name: for every body, path
  parameter, store function and store, the status is not 400 but one of 200, 404 and
  500, and the store it leaves is the one left by the \<^verbatim>\<open>UPDATE\<close> with the name and
  description bound exactly as the body has them.
\<close>

theorem put_never_validates:
  "statusCode (fst (put_item db ident body s)) \<noteq> 400 \<and>
   statusCode (fst (put_item db ident body s)) \<in> {200, 404, 500} \<and>
   snd (put_item db ident body s) =
     snd (db (UPDATE_RETURNING (property body ''name'') (property body ''description'') ident) s)"
  by (cases "db (UPDATE_RETURNING (property body ''name'') (property body ''description'') ident) s")
     (auto simp: put_item_def json_def split: sum.splits)

text \<open>
  An empty name replaces the name of item 1; an absent name reaches the store too,
  which rejects it for the \<^verbatim>\<open>NOT NULL\<close> column.
\<close>

theorem put_never_validates_witness:
  "property blank_name_body ''name'' = Str [] \<and>
   statusCode (fst (put_item pg_query ''1'' blank_name_body stocked)) \<noteq> 400 \<and>
   fst (put_item pg_query ''1'' blank_name_body stocked) = json 200 (Json_item (widget\<lparr>item_name := []\<rparr>)) \<and>
   items (snd (put_item pg_query ''1'' blank_name_body stocked)) = Some [gadget, widget\<lparr>item_name := []\<rparr>] \<and>
   statusCode (fst (put_item pg_query ''1'' [] stocked)) = 500"
proof -
  have "property blank_name_body ''name'' = Str []"
    by (simp add: blank_name_body_def property_def)
  moreover have "fst (put_item pg_query ''1'' blank_name_body stocked) = json 200 (Json_item (widget\<lparr>item_name := []\<rparr>))"
    by code_simp
  moreover have "items (snd (put_item pg_query ''1'' blank_name_body stocked)) = Some [gadget, widget\<lparr>item_name := []\<rparr>]"
    by code_simp
  moreover have "statusCode (fst (put_item pg_query ''1'' [] stocked)) = 500"
    by code_simp
  ultimately show ?thesis
    using put_never_validates [of pg_query "''1''" blank_name_body stocked] by simp
qed

section \<open>Properties of the handlers on the store\<close>

text \<open>On a server that answers and has the table, each statement is its own function.\<close>

lemma pg_query_up:
  assumes "accepting s" and "items s = Some t"
  shows "pg_query SELECT_ORDER_BY_ID s = pg_select_all t s"
    and "pg_query (SELECT_WHERE_ID x) s = pg_select x t s"
    and "pg_query (INSERT_RETURNING n d) s = pg_insert n d t s"
    and "pg_query (UPDATE_RETURNING n d x) s = pg_update n d x t s"
    and "pg_query (DELETE_WHERE_ID x) s = pg_delete x t s"
  using assms by (simp_all add: pg_query_def)

text \<open>An id that no row has selects nothing and deletes nothing.\<close>

lemma no_such_row:
  assumes "i \<notin> set (map item_id t)"
  shows "filter (\<lambda>r. item_id r = i) t = []" and "filter (\<lambda>r. item_id r \<noteq> i) t = t"
proof -
  from assms have "\<forall>r \<in> set t. item_id r \<noteq> i"
    by auto
  then show "filter (\<lambda>r. item_id r = i) t = []" and "filter (\<lambda>r. item_id r \<noteq> i) t = t"
    by (simp_all add: filter_empty_conv filter_id_conv)
qed

lemma same_items: "items s = Some t \<Longrightarrow> s\<lparr>items := Some t\<rparr> = s"
  by (cases s) simp

text \<open>A path text that the store does not read as an id fails the statement.\<close>

lemma unreadable_id:
  assumes "accepting s" and "items s = Some t" and "int4in ident = Inl e"
  shows "pg_query (SELECT_WHERE_ID ident) s = (Inl e, s)"
    and "pg_query (UPDATE_RETURNING n d ident) s = (Inl e, s)"
    and "pg_query (DELETE_WHERE_ID ident) s = (Inl e, s)"
  using assms by (simp_all add: pg_query_def pg_select_def pg_update_def pg_delete_def)

text \<open>
  Claim C3, as amended. On a store that answers and has the table, for a path
  parameter that the store reads as an id, a 32-bit integer, which no row of the table
  has, \<^verbatim>\<open>GET /items/:id\<close>, \<^verbatim>\<open>PUT /items/:id\<close> (with any body) and
  \<^verbatim>\<open>DELETE /items/:id\<close> each answer 404 with \<^verbatim>\<open>{error: "not found"}\<close> and leave the
  store as it was. For a path parameter that the store does not read as an id, the
  statement fails and each of the three answers 500 with \<^verbatim>\<open>{error: "db error"}\<close>.
\<close>

theorem unknown_id_not_found:
  assumes "accepting s" and "items s = Some t"
  shows "(int4in ident = Inr i \<and> i \<notin> set (map item_id t) \<longrightarrow>
            get_item pg_query ident s = (json 404 (Json_error ''not found''), s) \<and>
            put_item pg_query ident body s = (json 404 (Json_error ''not found''), s) \<and>
            delete_item pg_query ident s = (json 404 (Json_error ''not found''), s)) \<and>
         (int4in ident = Inl e \<longrightarrow>
            get_item pg_query ident s = (json 500 (Json_error ''db error''), s) \<and>
            put_item pg_query ident body s = (json 500 (Json_error ''db error''), s) \<and>
            delete_item pg_query ident s = (json 500 (Json_error ''db error''), s))"
proof (intro conjI impI)
  assume a: "int4in ident = Inr i \<and> i \<notin> set (map item_id t)"
  then have reads: "int4in ident = Inr i" and "i \<notin> set (map item_id t)"
    by simp_all
  note absent = no_such_row [OF this(2)]
  show "get_item pg_query ident s = (json 404 (Json_error ''not found''), s)"
    by (simp add: get_item_def pg_query_up(2) [OF assms] pg_select_def reads absent)
  show "put_item pg_query ident body s = (json 404 (Json_error ''not found''), s)"
    by (simp add: put_item_def pg_query_up(4) [OF assms] pg_update_def reads absent no_rows_def)
  show "delete_item pg_query ident s = (json 404 (Json_error ''not found''), s)"
    by (simp add: delete_item_def pg_query_up(5) [OF assms] pg_delete_def reads absent
        same_items [OF assms(2)])
next
  assume "int4in ident = Inl e"
  note fails = unreadable_id [OF assms this]
  show "get_item pg_query ident s = (json 500 (Json_error ''db error''), s)"
    by (simp add: get_item_def fails)
  show "put_item pg_query ident body s = (json 500 (Json_error ''db error''), s)"
    by (simp add: put_item_def fails)
  show "delete_item pg_query ident s = (json 500 (Json_error ''db error''), s)"
    by (simp add: delete_item_def fails)
qed

text \<open>Id 3, written with a blank, in a store that holds items 1 and 2; and a text that is no number.\<close>

theorem unknown_id_not_found_witness:
  "accepting stocked \<and> items stocked = Some [gadget, widget] \<and> int4in '' 3'' = Inr 3 \<and>
   3 \<notin> set (map item_id [gadget, widget]) \<and>
   get_item pg_query '' 3'' stocked = (json 404 (Json_error ''not found''), stocked) \<and>
   put_item pg_query '' 3'' widget_body stocked = (json 404 (Json_error ''not found''), stocked) \<and>
   delete_item pg_query '' 3'' stocked = (json 404 (Json_error ''not found''), stocked) \<and>
   int4in ''abc'' = Inl InvalidTextRepresentation \<and>
   get_item pg_query ''abc'' stocked = (json 500 (Json_error ''db error''), stocked)"
proof -
  have up: "accepting stocked" and table: "items stocked = Some [gadget, widget]"
    by (simp_all add: stocked_def)
  have three: "int4in '' 3'' = Inr 3"
    by code_simp
  have abc: "int4in ''abc'' = Inl InvalidTextRepresentation"
    by code_simp
  have unused: "3 \<notin> set (map item_id [gadget, widget])"
    by (simp add: gadget_def widget_def)
  note found = unknown_id_not_found [OF up table, of "'' 3''" 3 widget_body, THEN conjunct1, rule_format,
      OF conjI [OF three unused]]
  note failed = unknown_id_not_found [OF up table, of "''abc''" _ widget_body InvalidTextRepresentation,
      THEN conjunct2, rule_format, OF abc]
  show ?thesis
    using found failed up table three unused abc by simp
qed

text \<open>
  Claim C3 as the specification states it, 404 for every id that was never issued,
  fails for the id 2147483648: no row has it, it is beyond the range of the column, and
  the three handlers answer 500.
\<close>

theorem unknown_id_counterexample:
  "accepting stocked \<and> items stocked = Some [gadget, widget] \<and>
   map item_id [gadget, widget] = [2, 1] \<and>
   get_item pg_query ''2147483648'' stocked = (json 500 (Json_error ''db error''), stocked) \<and>
   put_item pg_query ''2147483648'' widget_body stocked = (json 500 (Json_error ''db error''), stocked) \<and>
   delete_item pg_query ''2147483648'' stocked = (json 500 (Json_error ''db error''), stocked)"
proof (intro conjI)
  show "accepting stocked" and "items stocked = Some [gadget, widget]"
    by (simp_all add: stocked_def)
  show "map item_id [gadget, widget] = [2, 1]"
    by (simp add: gadget_def widget_def)
  show "get_item pg_query ''2147483648'' stocked = (json 500 (Json_error ''db error''), stocked)"
    by code_simp
  show "put_item pg_query ''2147483648'' widget_body stocked = (json 500 (Json_error ''db error''), stocked)"
    by code_simp
  show "delete_item pg_query ''2147483648'' stocked = (json 500 (Json_error ''db error''), stocked)"
    by code_simp
qed

text \<open>Under a primary key, the rows that share an id with a row are that row alone.\<close>

lemma single_row:
  assumes "distinct (map item_id t)" and "k \<in> set t"
  shows "filter (\<lambda>r. item_id k = item_id r) t = [k]"
  using assms
proof (induction t)
  case Nil
  then show ?case by simp
next
  case (Cons a t)
  show ?case
  proof (cases "k = a")
    case True
    from Cons.prems(1) have "\<forall>r \<in> set t. item_id a \<noteq> item_id r"
      by auto
    then have "filter (\<lambda>r. item_id a = item_id r) t = []"
      by (simp add: filter_empty_conv)
    with True show ?thesis by simp
  next
    case False
    have kt: "k \<in> set t"
      using False Cons.prems(2) by simp
    have dt: "distinct (map item_id t)"
      using Cons.prems(1) by simp
    have "item_id a \<notin> item_id ` set t"
      using Cons.prems(1) by simp
    moreover have "item_id k \<in> item_id ` set t"
      using kt by (rule imageI)
    ultimately have "item_id k \<noteq> item_id a"
      by metis
    with Cons.IH [OF dt kt] show ?thesis
      by simp
  qed
qed

text \<open>The physical order of the rows does not show in the sorted result.\<close>

lemma sort_key_any_order:
  assumes "mset t' = mset t" and "distinct (map item_id t)"
  shows "sort_key item_id t' = sort_key item_id t"
proof (rule properties_for_sort_key)
  show "mset (sort_key item_id t) = mset t'"
    using assms(1) by simp
  show "sorted (map item_id (sort_key item_id t))"
    by (rule sorted_sort_key)
  fix k
  assume "k \<in> set (sort_key item_id t)"
  then have k: "k \<in> set t" by simp
  have "mset (map item_id t') = mset (map item_id t)"
    using assms(1) by (metis mset_map)
  then have d': "distinct (map item_id t')"
    using assms(2) by (metis mset_eq_imp_distinct_iff)
  have k': "k \<in> set t'"
    using k assms(1) by (metis mset_eq_setD)
  have ds: "distinct (map item_id (sort_key item_id t))"
    using assms(2) by (simp add: distinct_map inj_on_def)
  show "filter (\<lambda>x. item_id k = item_id x) (sort_key item_id t) = filter (\<lambda>x. item_id k = item_id x) t'"
    using single_row [OF d' k'] single_row [OF ds] k by simp
qed

text \<open>
  Claim C7. On a store that answers and has the table, \<^verbatim>\<open>GET /items\<close> answers 200 with
  a sequence that holds exactly the rows of the table and is in ascending order of id.
  The order in which the rows lie in the table, which is what inserts and updates
  change, does not matter: any rearrangement of a table with distinct ids gives the
  same response.
\<close>

theorem list_is_sorted_by_id:
  assumes "accepting s" and "items s = Some t"
  shows "\<exists>rs. get_items pg_query s = (json 200 (Json_items rs), s) \<and>
           mset rs = mset t \<and> sorted (map item_id rs) \<and>
           (\<forall>t'. mset t' = mset t \<and> distinct (map item_id t) \<longrightarrow>
              fst (get_items pg_query (s\<lparr>items := Some t'\<rparr>)) = json 200 (Json_items rs))"
proof (intro exI conjI allI impI)
  show "get_items pg_query s = (json 200 (Json_items (sort_key item_id t)), s)"
    by (simp add: get_items_def pg_query_up(1) [OF assms] pg_select_all_def)
  show "mset (sort_key item_id t) = mset t"
    by simp
  show "sorted (map item_id (sort_key item_id t))"
    by (rule sorted_sort_key)
next
  fix t'
  assume "mset t' = mset t \<and> distinct (map item_id t)"
  then have "mset t' = mset t" and "distinct (map item_id t)"
    by simp_all
  then have same: "sort_key item_id t' = sort_key item_id t"
    by (rule sort_key_any_order)
  have "accepting (s\<lparr>items := Some t'\<rparr>)" and "items (s\<lparr>items := Some t'\<rparr>) = Some t'"
    using assms(1) by simp_all
  then show "fst (get_items pg_query (s\<lparr>items := Some t'\<rparr>)) = json 200 (Json_items (sort_key item_id t))"
    by (simp add: get_items_def pg_query_up(1) pg_select_all_def same)
qed

text \<open>A table that holds item 2 before item 1 is listed as 1, 2, and so is the table in the other order.\<close>

theorem list_is_sorted_by_id_witness:
  "accepting stocked \<and> items stocked = Some [gadget, widget] \<and>
   get_items pg_query stocked = (json 200 (Json_items [widget, gadget]), stocked) \<and>
   map item_id [widget, gadget] = [1, 2] \<and>
   fst (get_items pg_query (stocked\<lparr>items := Some [widget, gadget]\<rparr>)) = json 200 (Json_items [widget, gadget])"
proof -
  have up: "accepting stocked" and table: "items stocked = Some [gadget, widget]"
    by (simp_all add: stocked_def)
  from list_is_sorted_by_id [OF up table] obtain rs where
    rs: "get_items pg_query stocked = (json 200 (Json_items rs), stocked)"
      and other: "\<forall>t'. mset t' = mset [gadget, widget] \<and> distinct (map item_id [gadget, widget]) \<longrightarrow>
              fst (get_items pg_query (stocked\<lparr>items := Some t'\<rparr>)) = json 200 (Json_items rs)"
    by blast
  have "get_items pg_query stocked = (json 200 (Json_items [widget, gadget]), stocked)"
    by code_simp
  with rs have "rs = [widget, gadget]"
    by (simp add: json_def)
  moreover have "mset [widget, gadget] = mset [gadget, widget] \<and> distinct (map item_id [gadget, widget])"
    by (simp add: gadget_def widget_def)
  ultimately show ?thesis
    using rs other up table by (simp add: gadget_def widget_def)
qed

section \<open>Creating an item and reading it back\<close>

lemma truthy_to_text: "truthy v \<Longrightarrow> \<exists>n. to_text v = Some n"
  by (cases v) simp_all

text \<open>The next value of the sequence is the id of no row.\<close>

lemma fresh_id_unused:
  assumes "list_all (\<lambda>r. item_id r \<le> q) t"
  shows "q + 1 \<notin> set (map item_id t)"
proof
  assume "q + 1 \<in> set (map item_id t)"
  then obtain r where "r \<in> set t" and "item_id r = q + 1"
    by auto
  with assms show False
    by (auto simp: list_all_iff)
qed

text \<open>What the create handler answers and stores, on a store that serves requests.\<close>

lemma post_item_serving:
  assumes "serving s t" and "to_text (property body ''name'') = Some n"
    and "truthy (property body ''name'')"
  shows "post_item pg_query body s =
          (json 201 (Json_item \<lparr>item_id = items_id_seq s + 1, item_name = n,
                                 item_description = to_text (js_or (property body ''description'') Null),
                                 item_created_at = current_timestamp s\<rparr>),
           s\<lparr>items_id_seq := items_id_seq s + 1,
             items := Some (t @ [\<lparr>item_id = items_id_seq s + 1, item_name = n,
                                 item_description = to_text (js_or (property body ''description'') Null),
                                 item_created_at = current_timestamp s\<rparr>])\<rparr>)"
proof -
  from assms(1) have up: "accepting s" and table: "items s = Some t"
    and below: "list_all (\<lambda>r. item_id r \<le> items_id_seq s) t" and room: "items_id_seq s < 2147483647"
    by (simp_all add: serving_def)
  have unused: "items_id_seq s + 1 \<notin> set (map item_id t)"
    using below by (rule fresh_id_unused)
  show ?thesis
    using room unused assms(2,3)
    by (simp add: post_item_def pg_query_up(3) [OF up table] pg_insert_def Let_def first_row_def)
qed

text \<open>The table that \<^verbatim>\<open>db.init\<close> creates on a server that answers is served.\<close>

lemma init_makes_serving:
  assumes "accepting s" and "items s = None"
  shows "fst (init pg_query s) = Inr () \<and> serving (snd (init pg_query s)) []"
  using assms by (simp add: init_def pg_query_def no_rows_def serving_def)

text \<open>Creating an item leaves a store that serves, while the sequence has values left.\<close>

lemma post_keeps_serving:
  assumes "serving s t" and "items_id_seq s + 1 < 2147483647"
  shows "\<exists>t'. serving (snd (post_item pg_query body s)) t'"
proof (cases "truthy (property body ''name'')")
  case False
  with assms(1) show ?thesis
    by (auto simp: post_item_def)
next
  case True
  then obtain n where n: "to_text (property body ''name'') = Some n"
    using truthy_to_text by blast
  have "list_all (\<lambda>r. item_id r \<le> items_id_seq s + 1) t"
    using assms(1) by (auto simp: serving_def list_all_iff)
  with assms show ?thesis
    by (simp add: post_item_serving [OF assms(1) n True] serving_def)
qed

text \<open>Reading the row that was appended last, by any text that denotes its id.\<close>

lemma get_item_last:
  assumes "accepting s" and "items s = Some (t @ [r])" and "item_id r \<notin> set (map item_id t)"
    and "int4in p = Inr (item_id r)"
  shows "get_item pg_query p s = (json 200 (Json_item r), s)"
proof -
  have "filter (\<lambda>x. item_id x = item_id r) t = []"
    using assms(3) by (rule no_such_row(1))
  then show ?thesis
    by (simp add: get_item_def pg_query_up(2) [OF assms(1,2)] pg_select_def assms(4) first_row_def)
qed

text \<open>
  Claim C1, as amended. On a store that serves requests, a \<^verbatim>\<open>POST /items\<close> with a
  non-empty string as name answers 201 with the created item: its name is the posted
  name, its id is the next value of the sequence and its \<^verbatim>\<open>created_at\<close> is the
  server's clock. Its description is the posted description when that is a non-empty
  string, and null when the description is absent or the empty string. A
  \<^verbatim>\<open>GET /items/:id\<close> with any text that denotes the returned id then answers 200 with
  exactly that item.
\<close>

theorem post_then_get:
  assumes "serving s t" and "property body ''name'' = Str n" and "n \<noteq> []"
  shows "\<exists>it s'. post_item pg_query body s = (json 201 (Json_item it), s') \<and>
           item_name it = n \<and>
           item_id it = items_id_seq s + 1 \<and>
           item_created_at it = current_timestamp s \<and>
           (\<forall>d. property body ''description'' = Str d \<and> d \<noteq> [] \<longrightarrow> item_description it = Some d) \<and>
           (property body ''description'' = Undefined \<or> property body ''description'' = Str [] \<longrightarrow>
              item_description it = None) \<and>
           (\<forall>p. int4in p = Inr (item_id it) \<longrightarrow> get_item pg_query p s' = (json 200 (Json_item it), s'))"
proof -
  define it where "it = \<lparr>item_id = items_id_seq s + 1, item_name = n,
      item_description = to_text (js_or (property body ''description'') Null),
      item_created_at = current_timestamp s\<rparr>"
  define s' where "s' = s\<lparr>items_id_seq := items_id_seq s + 1, items := Some (t @ [it])\<rparr>"
  have posted: "post_item pg_query body s = (json 201 (Json_item it), s')"
    unfolding it_def s'_def using assms by (intro post_item_serving) simp_all
  have up: "accepting s'" and table: "items s' = Some (t @ [it])"
    using assms(1) by (simp_all add: s'_def serving_def)
  have unused: "item_id it \<notin> set (map item_id t)"
    using assms(1) fresh_id_unused [of "items_id_seq s" t] by (simp add: it_def serving_def)
  have got: "\<forall>p. int4in p = Inr (item_id it) \<longrightarrow> get_item pg_query p s' = (json 200 (Json_item it), s')"
    using get_item_last [OF up table unused] by blast
  have given: "\<forall>d. property body ''description'' = Str d \<and> d \<noteq> [] \<longrightarrow> item_description it = Some d"
    by (simp add: it_def js_or_def)
  have blank: "property body ''description'' = Undefined \<or> property body ''description'' = Str [] \<longrightarrow>
      item_description it = None"
    by (auto simp: it_def js_or_def)
  have "item_name it = n" and "item_id it = items_id_seq s + 1"
    and "item_created_at it = current_timestamp s"
    by (simp_all add: it_def)
  with posted got given blank show ?thesis
    by blast
qed

text \<open>The widget posted to the empty table and read back as item 1.\<close>

theorem post_then_get_witness:
  "serving fresh [] \<and> property widget_body ''name'' = Str ''widget'' \<and>
   post_item pg_query widget_body fresh =
     (json 201 (Json_item widget), fresh\<lparr>items_id_seq := 1, items := Some [widget]\<rparr>) \<and>
   int4in ''1'' = Inr 1 \<and>
   get_item pg_query ''1'' (fresh\<lparr>items_id_seq := 1, items := Some [widget]\<rparr>) =
     (json 200 (Json_item widget), fresh\<lparr>items_id_seq := 1, items := Some [widget]\<rparr>)"
proof -
  have ok: "serving fresh []"
    by (simp add: serving_def fresh_def)
  have name: "property widget_body ''name'' = Str ''widget''"
    by (simp add: widget_body_def property_def)
  have descr: "property widget_body ''description'' = Str ''a widget''"
    by (simp add: widget_body_def property_def)
  have one: "int4in ''1'' = Inr 1"
    by code_simp
  from post_then_get [OF ok name] obtain it s' where
    posted: "post_item pg_query widget_body fresh = (json 201 (Json_item it), s')"
    and got: "\<forall>p. int4in p = Inr (item_id it) \<longrightarrow> get_item pg_query p s' = (json 200 (Json_item it), s')"
    and fields: "item_name it = ''widget''" "item_id it = items_id_seq fresh + 1"
    by auto
  have "post_item pg_query widget_body fresh =
     (json 201 (Json_item widget), fresh\<lparr>items_id_seq := 1, items := Some [widget]\<rparr>)"
    by code_simp
  with posted have same: "it = widget" "s' = fresh\<lparr>items_id_seq := 1, items := Some [widget]\<rparr>"
    by (simp_all add: json_def)
  have "item_id widget = 1"
    by (simp add: widget_def)
  with got one same have "get_item pg_query ''1'' (fresh\<lparr>items_id_seq := 1, items := Some [widget]\<rparr>) =
     (json 200 (Json_item widget), fresh\<lparr>items_id_seq := 1, items := Some [widget]\<rparr>)"
    by simp
  with ok name posted same one show ?thesis
    by simp
qed

text \<open>
  Claim C1 as the specification states it fails for a payload whose description is the
  empty string: the item created, and read back, has no description, while the posted
  text bound as it is would have been stored as the empty text.
\<close>

theorem post_then_get_counterexample:
  "serving fresh [] \<and>
   property blank_description_body ''name'' = Str ''widget'' \<and>
   property blank_description_body ''description'' = Str [] \<and>
   fst (post_item pg_query blank_description_body fresh) =
     json 201 (Json_item \<lparr>item_id = 1, item_name = ''widget'', item_description = None, item_created_at = 7\<rparr>) \<and>
   fst (get_item pg_query ''1'' (snd (post_item pg_query blank_description_body fresh))) =
     json 200 (Json_item \<lparr>item_id = 1, item_name = ''widget'', item_description = None, item_created_at = 7\<rparr>) \<and>
   to_text (property blank_description_body ''description'') \<noteq> None"
proof (intro conjI)
  show "serving fresh []"
    by (simp add: serving_def fresh_def)
  show "property blank_description_body ''name'' = Str ''widget''"
    by (simp add: blank_description_body_def property_def)
  show d: "property blank_description_body ''description'' = Str []"
    by (simp add: blank_description_body_def property_def)
  show "fst (post_item pg_query blank_description_body fresh) =
     json 201 (Json_item \<lparr>item_id = 1, item_name = ''widget'', item_description = None, item_created_at = 7\<rparr>)"
    by code_simp
  show "fst (get_item pg_query ''1'' (snd (post_item pg_query blank_description_body fresh))) =
     json 200 (Json_item \<lparr>item_id = 1, item_name = ''widget'', item_description = None, item_created_at = 7\<rparr>)"
    by code_simp
  show "to_text (property blank_description_body ''description'') \<noteq> None"
    by (simp add: d)
qed

text \<open>A property written again at the end of the body replaces the earlier one.\<close>

lemma property_append_same: "property (body @ [(k, v)]) k = v"
  by (simp add: property_def)

lemma property_append_other: "k' \<noteq> k \<Longrightarrow> property (body @ [(k, v)]) k' = property body k'"
  by (simp add: property_def)

text \<open>An insert whose second parameter is null returns rows without description.\<close>

lemma insert_null_description:
  assumes "pg_query (INSERT_RETURNING name Null) u = (Inr r, s')"
  shows "list_all (\<lambda>it. item_description it = None) (rows r)"
  using assms
  by (auto simp: pg_query_def pg_insert_def Let_def split: if_splits option.splits)

text \<open>Whatever the state of the store, an item created from a falsy description has none.\<close>

lemma created_without_description:
  assumes "\<not> truthy (property body ''description'')"
    and "post_item pg_query body u = (json 201 (Json_item it), s')"
  shows "item_description it = None"
proof -
  have null: "js_or (property body ''description'') Null = Null"
    using assms(1) by (simp add: js_or_def)
  show ?thesis
  proof (cases "truthy (property body ''name'')")
    case False
    with assms(2) show ?thesis
      by (simp add: post_item_def json_def)
  next
    case True
    obtain x s'' where q: "pg_query (INSERT_RETURNING (property body ''name'') Null) u = (x, s'')"
      by (cases "pg_query (INSERT_RETURNING (property body ''name'') Null) u") auto
    show ?thesis
    proof (cases x)
      case (Inl e)
      with assms(2) True q show ?thesis
        by (simp add: post_item_def null json_def)
    next
      case (Inr r)
      with insert_null_description q have "list_all (\<lambda>it. item_description it = None) (rows r)"
        by blast
      moreover have "first_row (rows r) = Json_item it"
        using assms(2) True q Inr by (simp add: post_item_def null json_def)
      ultimately show ?thesis
        by (cases "rows r") (simp_all add: first_row_def)
    qed
  qed
qed

text \<open>
  Claim C10. For a \<^verbatim>\<open>POST /items\<close> with a non-empty name whose description is falsy
  (absent, null, the empty string, \<^verbatim>\<open>false\<close> or 0), the created item's description
  is null: on a store that serves requests the item is created, with the posted name
  and without description; in whatever state the store is, an item that the handler
  reports as created has no description; and against every store function the handler
  behaves as if the body had said \<^verbatim>\<open>"description": null\<close>, since the falsy value is
  replaced before the insert.
\<close>

theorem falsy_description_stored_as_null:
  assumes "property body ''name'' = Str n" and "n \<noteq> []"
    and "\<not> truthy (property body ''description'')"
  shows "(serving s t \<longrightarrow>
            (\<exists>it s'. post_item pg_query body s = (json 201 (Json_item it), s') \<and>
               item_description it = None \<and> item_name it = n \<and> items s' = Some (t @ [it]))) \<and>
         (post_item pg_query body u = (json 201 (Json_item created), u') \<longrightarrow>
            item_description created = None) \<and>
         post_item db body v = post_item db (body @ [(''description'', Null)]) v"
proof (intro conjI impI)
  assume ok: "serving s t"
  have "to_text (js_or (property body ''description'') Null) = None"
    using assms(3) by (simp add: js_or_def)
  moreover have "to_text (property body ''name'') = Some n" and "truthy (property body ''name'')"
    using assms(1,2) by simp_all
  ultimately show "\<exists>it s'. post_item pg_query body s = (json 201 (Json_item it), s') \<and>
            item_description it = None \<and> item_name it = n \<and> items s' = Some (t @ [it])"
    using post_item_serving [OF ok, of body n] by simp
next
  assume "post_item pg_query body u = (json 201 (Json_item created), u')"
  with assms(3) show "item_description created = None"
    by (rule created_without_description)
next
  have "js_or (property body ''description'') Null = js_or Null Null"
    using assms(3) by (simp add: js_or_def)
  moreover have "property (body @ [(''description'', Null)]) ''name'' = property body ''name''"
    by (simp add: property_append_other)
  moreover have "property (body @ [(''description'', Null)]) ''description'' = Null"
    by (rule property_append_same)
  ultimately show "post_item db body v = post_item db (body @ [(''description'', Null)]) v"
    by (simp add: post_item_def Let_def)
qed

text \<open>The empty description and the absent description give the same item, without description.\<close>

theorem falsy_description_stored_as_null_witness:
  "serving fresh [] \<and> property blank_description_body ''description'' = Str [] \<and>
   post_item pg_query blank_description_body fresh =
     (json 201 (Json_item \<lparr>item_id = 1, item_name = ''widget'', item_description = None, item_created_at = 7\<rparr>),
      fresh\<lparr>items_id_seq := 1,
        items := Some [\<lparr>item_id = 1, item_name = ''widget'', item_description = None, item_created_at = 7\<rparr>]\<rparr>) \<and>
   post_item pg_query [(''name'', Str ''widget'')] fresh = post_item pg_query blank_description_body fresh"
proof -
  have ok: "serving fresh []"
    by (simp add: serving_def fresh_def)
  have name: "property blank_description_body ''name'' = Str ''widget''"
    by (simp add: blank_description_body_def property_def)
  have descr: "property blank_description_body ''description'' = Str []"
    by (simp add: blank_description_body_def property_def)
  have falsy: "\<not> truthy (property blank_description_body ''description'')"
    by (simp add: descr)
  have absent: "\<not> truthy (property [(''name'', Str ''widget'')] ''description'')"
    by (simp add: property_def)
  have name': "property [(''name'', Str ''widget'')] ''name'' = Str ''widget''"
    by (simp add: property_def)
  have ne: "''widget'' \<noteq> []"
    by simp
  note here = falsy_description_stored_as_null [OF name ne falsy, where db = pg_query and v = fresh]
  note there = falsy_description_stored_as_null [OF name' ne absent, where db = pg_query and v = fresh]
  have "post_item pg_query blank_description_body fresh =
      post_item pg_query (blank_description_body @ [(''description'', Null)]) fresh"
    by (rule here [THEN conjunct2, THEN conjunct2])
  also have "\<dots> = post_item pg_query ([(''name'', Str ''widget'')] @ [(''description'', Null)]) fresh"
    by (simp add: post_item_def property_def blank_description_body_def Let_def)
  also have "\<dots> = post_item pg_query [(''name'', Str ''widget'')] fresh"
    by (rule there [THEN conjunct2, THEN conjunct2, symmetric])
  finally have same: "post_item pg_query [(''name'', Str ''widget'')] fresh = post_item pg_query blank_description_body fresh"
    by simp
  have "post_item pg_query blank_description_body fresh =
     (json 201 (Json_item \<lparr>item_id = 1, item_name = ''widget'', item_description = None, item_created_at = 7\<rparr>),
      fresh\<lparr>items_id_seq := 1,
        items := Some [\<lparr>item_id = 1, item_name = ''widget'', item_description = None, item_created_at = 7\<rparr>]\<rparr>)"
    by code_simp
  with ok descr same show ?thesis
    by simp
qed

section \<open>The startup sequencer retries a bounded number of times\<close>

text \<open>A call of \<^verbatim>\<open>db.init\<close> either throws or returns.\<close>

lemma init_cases:
  obtains (failed) err s' where "init db s = (Inl err, s')" and "init_fails db s"
  | (ok) s' where "init db s = (Inr (), s')" and "\<not> init_fails db s"
proof (cases "init db s")
  case (Pair r s')
  then show ?thesis
    by (cases r) (auto simp: init_fails_def intro: failed ok)
qed

text \<open>The three ways through one turn of the loop.\<close>

lemma loop_exhausted: "\<not> tries < 12 \<Longrightarrow> startup_loop db world tries s = ([], s)"
  by (simp add: startup_loop.simps)

lemma loop_success:
  assumes "tries < 12" and "\<not> init_fails db s"
  shows "startup_loop db world tries s = ([Init_call, Log_initialized], snd (init db s))"
proof (cases rule: init_cases [of db s])
  case (failed err s')
  with assms(2) show ?thesis by simp
next
  case (ok s')
  with assms(1) show ?thesis
    by (simp add: startup_loop.simps [of db world tries s])
qed

lemma loop_failure:
  assumes "tries < 12" and "init_fails db s"
  shows "fst (startup_loop db world tries s) =
           Init_call # Log_waiting (tries + 1) # Sleep 2000 #
           fst (startup_loop db world (tries + 1) (world 2000 (snd (init db s))))"
proof (cases rule: init_cases [of db s])
  case (failed err s')
  with assms(1) show ?thesis
    by (simp add: startup_loop.simps [of db world tries s] split: prod.splits)
next
  case (ok s')
  with assms(2) show ?thesis by simp
qed

text \<open>The store before the next call is the store before the first call, one round later.\<close>

lemma before_attempt_0: "before_attempt db world 0 s = s"
  by (simp add: before_attempt_def)

lemma before_attempt_Suc:
  "before_attempt db world (Suc j) s = before_attempt db world j (world 2000 (snd (init db s)))"
  by (simp only: before_attempt_def funpow_Suc_right comp_apply)

text \<open>\<open>k\<close> failures and then a success, with room left in the budget.\<close>

lemma loop_first_success:
  assumes "tries + k < 12"
    and "\<forall>j<k. init_fails db (before_attempt db world j s)"
    and "\<not> init_fails db (before_attempt db world k s)"
  shows "fst (startup_loop db world tries s) = failed_rounds tries k @ [Init_call, Log_initialized]"
  using assms
proof (induction k arbitrary: tries s)
  case 0
  then show ?case
    by (simp add: loop_success before_attempt_0)
next
  case (Suc k)
  from Suc.prems(2) have first: "init_fails db s"
    using before_attempt_0 [of db world s] by force
  let ?s = "world 2000 (snd (init db s))"
  have later: "\<forall>j<k. init_fails db (before_attempt db world j ?s)"
    using Suc.prems(2) by (simp add: before_attempt_Suc [symmetric])
  have last: "\<not> init_fails db (before_attempt db world k ?s)"
    using Suc.prems(3) by (simp add: before_attempt_Suc)
  have "tries + 1 + k < 12" and "tries < 12"
    using Suc.prems(1) by simp_all
  with Suc.IH [OF _ later last, of "tries + 1"] first show ?case
    by (simp add: loop_failure)
qed

text \<open>Failures until the counter reaches 12.\<close>

lemma loop_all_fail:
  assumes "tries + k = 12"
    and "\<forall>j<k. init_fails db (before_attempt db world j s)"
  shows "fst (startup_loop db world tries s) = failed_rounds tries k"
  using assms
proof (induction k arbitrary: tries s)
  case 0
  then show ?case
    by (simp add: loop_exhausted)
next
  case (Suc k)
  from Suc.prems(2) have first: "init_fails db s"
    using before_attempt_0 [of db world s] by force
  let ?s = "world 2000 (snd (init db s))"
  have later: "\<forall>j<k. init_fails db (before_attempt db world j ?s)"
    using Suc.prems(2) by (simp add: before_attempt_Suc [symmetric])
  have "tries + 1 + k = 12" and "tries < 12"
    using Suc.prems(1) by simp_all
  with Suc.IH [OF _ later, of "tries + 1"] first show ?case
    by (simp add: loop_failure)
qed

text \<open>From a counter at \<open>tries\<close>, no more than \<open>12 - tries\<close> calls are made.\<close>

lemma loop_calls_bounded:
  "count_list (fst (startup_loop db world tries s)) Init_call \<le> 12 - tries"
proof (induction db world tries s rule: startup_loop.induct)
  case (1 db world tries s)
  show ?case
  proof (cases "tries < 12")
    case False
    then show ?thesis
      by (simp add: loop_exhausted)
  next
    case True
    show ?thesis
    proof (cases rule: init_cases [of db s])
      case (failed err s')
      have "count_list (fst (startup_loop db world (tries + 1) (world 2000 s'))) Init_call \<le> 12 - (tries + 1)"
        using "1.IH" [OF True failed(1) [symmetric] refl] .
      with True failed show ?thesis
        by (simp add: loop_failure)
    next
      case (ok s')
      with True show ?thesis
        by (simp add: loop_success)
    qed
  qed
qed

lemma count_failed_rounds: "count_list (failed_rounds tries k) Init_call = k"
  by (induction k arbitrary: tries) simp_all

text \<open>
  Claim C4. Whatever the store does, the sequencer calls \<^verbatim>\<open>db.init\<close> at most 12 times.
  When the first \<open>k < 12\<close> calls fail and the next one succeeds, its trace is \<open>k\<close>
  rounds of a call, the log line with the counter raised by one, and a wait of 2000
  milliseconds, followed by the successful call and its log line, and nothing after
  that: \<open>k + 1\<close> calls. When twelve calls fail, the trace is those twelve rounds and
  then ends: twelve calls, no thirteenth, and no other effect; the function returns
  and the process goes on.
\<close>

theorem startup_retries_at_most_12:
  "count_list (fst (startup db world s)) Init_call \<le> 12 \<and>
   (k < 12 \<and> (\<forall>j<k. init_fails db (before_attempt db world j s)) \<and>
      \<not> init_fails db (before_attempt db world k s) \<longrightarrow>
        fst (startup db world s) = failed_rounds 0 k @ [Init_call, Log_initialized] \<and>
        count_list (fst (startup db world s)) Init_call = k + 1) \<and>
   ((\<forall>j<12. init_fails db (before_attempt db world j s)) \<longrightarrow>
        fst (startup db world s) = failed_rounds 0 12 \<and>
        count_list (fst (startup db world s)) Init_call = 12)"
proof (intro conjI impI)
  show "count_list (fst (startup db world s)) Init_call \<le> 12"
    using loop_calls_bounded [of db world 0 s] by (simp add: startup_def)
next
  assume a: "k < 12 \<and> (\<forall>j<k. init_fails db (before_attempt db world j s)) \<and>
      \<not> init_fails db (before_attempt db world k s)"
  then show tr: "fst (startup db world s) = failed_rounds 0 k @ [Init_call, Log_initialized]"
    by (simp add: startup_def loop_first_success)
  show "count_list (fst (startup db world s)) Init_call = k + 1"
    by (simp add: tr count_failed_rounds)
next
  assume "\<forall>j<12. init_fails db (before_attempt db world j s)"
  then show tr: "fst (startup db world s) = failed_rounds 0 12"
    by (simp add: startup_def loop_all_fail)
  show "count_list (fst (startup db world s)) Init_call = 12"
    by (simp add: tr count_failed_rounds)
qed

text \<open>Unfolding a number of rounds that is written as a numeral.\<close>

lemma failed_rounds_numeral:
  "failed_rounds tries (numeral k) =
     Init_call # Log_waiting (tries + 1) # Sleep 2000 # failed_rounds (tries + 1) (pred_numeral k)"
  by (simp add: numeral_eq_Suc)

text \<open>A server that is down, in a world where nothing changes, is down at every attempt.\<close>

lemma down_stays_down: "before_attempt pg_query still j down = down"
proof (induction j)
  case 0
  show ?case by (rule before_attempt_0)
next
  case (Suc j)
  have "still 2000 (snd (init pg_query down)) = down"
    by (simp add: still_def init_def pg_query_down down_def)
  with Suc show ?case
    by (simp add: before_attempt_Suc)
qed

text \<open>
  Against a server that stays down the sequencer makes its twelve calls and ends with
  the twelfth wait; against a server that comes up during the first wait it makes two.
\<close>

theorem startup_retries_at_most_12_witness:
  "init_fails pg_query down \<and>
   fst (startup pg_query still down) = failed_rounds 0 12 \<and>
   count_list (fst (startup pg_query still down)) Init_call = 12 \<and>
   last (fst (startup pg_query still down)) = Sleep 2000 \<and>
   \<not> init_fails pg_query (before_attempt pg_query comes_up 1 down) \<and>
   fst (startup pg_query comes_up down) =
     [Init_call, Log_waiting 1, Sleep 2000, Init_call, Log_initialized] \<and>
   count_list (fst (startup pg_query comes_up down)) Init_call = 2"
proof -
  have off: "init_fails pg_query down"
    by (simp add: init_fails_def init_def pg_query_down down_def)
  then have never: "\<forall>j<12. init_fails pg_query (before_attempt pg_query still j down)"
    by (simp add: down_stays_down)
  have first: "\<forall>j<1. init_fails pg_query (before_attempt pg_query comes_up j down)"
    using off by (simp add: before_attempt_0)
  have "before_attempt pg_query comes_up 1 down = down\<lparr>accepting := True\<rparr>"
    by (simp add: before_attempt_def comes_up_def init_def pg_query_down down_def)
  then have second: "\<not> init_fails pg_query (before_attempt pg_query comes_up 1 down)"
    by (simp add: init_fails_def init_def pg_query_def down_def)
  have rounds: "failed_rounds 0 12 =
     [Init_call, Log_waiting 1, Sleep 2000, Init_call, Log_waiting 2, Sleep 2000,
      Init_call, Log_waiting 3, Sleep 2000, Init_call, Log_waiting 4, Sleep 2000,
      Init_call, Log_waiting 5, Sleep 2000, Init_call, Log_waiting 6, Sleep 2000,
      Init_call, Log_waiting 7, Sleep 2000, Init_call, Log_waiting 8, Sleep 2000,
      Init_call, Log_waiting 9, Sleep 2000, Init_call, Log_waiting 10, Sleep 2000,
      Init_call, Log_waiting 11, Sleep 2000, Init_call, Log_waiting 12, Sleep 2000]"
    by (simp add: failed_rounds_numeral)
  have one: "failed_rounds 0 1 = [Init_call, Log_waiting 1, Sleep 2000]"
    by simp
  from startup_retries_at_most_12 [of pg_query still down 0] never
  have gave_up: "fst (startup pg_query still down) = failed_rounds 0 12 \<and>
      count_list (fst (startup pg_query still down)) Init_call = 12"
    by blast
  have "(1::nat) < 12 \<and> (\<forall>j<1. init_fails pg_query (before_attempt pg_query comes_up j down)) \<and>
      \<not> init_fails pg_query (before_attempt pg_query comes_up 1 down)"
    using first second by simp
  from startup_retries_at_most_12 [of pg_query comes_up down 1, THEN conjunct2, THEN conjunct1, rule_format, OF this]
  have came_up: "fst (startup pg_query comes_up down) = failed_rounds 0 1 @ [Init_call, Log_initialized] \<and>
      count_list (fst (startup pg_query comes_up down)) Init_call = 1 + 1" .
  have "last (fst (startup pg_query still down)) = Sleep 2000"
    using gave_up by (simp add: rounds)
  with gave_up came_up off second show ?thesis
    by (simp add: one count_failed_rounds)
qed

section \<open>The pool's size and its queue\<close>

text \<open>Serving the queue and every event keep the number of connections within the maximum.\<close>

lemma pulseQueue_inv: "pool_inv mx p \<Longrightarrow> pool_inv mx (pulseQueue mx p)"
  by (auto simp: pool_inv_def pulseQueue_def split: list.splits)

lemma pool_step_inv:
  assumes "pool_inv mx p"
  shows "pool_inv mx (pool_step mx p ev)"
proof (cases ev)
  case (Query r)
  have "pool_inv mx (p\<lparr>pendingQueue := pendingQueue p @ [r]\<rparr>)"
    using assms by (simp add: pool_inv_def)
  then have "pool_inv mx (pulseQueue mx (p\<lparr>pendingQueue := pendingQueue p @ [r]\<rparr>))"
    by (rule pulseQueue_inv)
  moreover have "\<not> mx \<le> clients p \<Longrightarrow> pool_inv mx (p\<lparr>clients := clients p + 1, in_use := in_use p @ [r]\<rparr>)"
    using assms by (simp add: pool_inv_def)
  ultimately show ?thesis
    using Query by (auto simp: pool_step_def)
next
  case (Finished r ok)
  show ?thesis
  proof (cases "r \<in> set (in_use p)")
    case False
    with Finished assms show ?thesis
      by (simp add: pool_step_def)
  next
    case True
    then obtain n where n: "length (in_use p) = Suc n"
      by (cases "in_use p") auto
    with True have len: "length (remove1 r (in_use p)) = n"
      by (simp add: length_remove1)
    have "pool_inv mx (p\<lparr>in_use := remove1 r (in_use p), idle := idle p + 1\<rparr>)"
      using assms len n by (simp add: pool_inv_def)
    moreover have "pool_inv mx (p\<lparr>in_use := remove1 r (in_use p), clients := clients p - 1\<rparr>)"
      using assms len n by (simp add: pool_inv_def)
    ultimately show ?thesis
      using Finished True by (simp add: pool_step_def pulseQueue_inv)
  qed
next
  case Idle_timeout
  with assms show ?thesis
    by (auto simp: pool_step_def pool_inv_def)
qed

lemma foldl_pool_inv: "pool_inv mx p \<Longrightarrow> pool_inv mx (foldl (pool_step mx) p evs)"
  by (induction evs arbitrary: p) (simp_all add: pool_step_inv)

lemma pool_after_inv: "pool_inv 5 (pool_after e evs)"
proof -
  have "pool_inv 5 new_pool"
    by (simp add: pool_inv_def new_pool_def)
  then show ?thesis
    by (simp add: pool_after_def pool_def foldl_pool_inv)
qed

text \<open>With every connection in use, a query is put at the end of the queue and nothing else changes.\<close>

lemma full_pool_queues:
  assumes "pool_inv mx p" and "length (in_use p) = mx"
  shows "pool_step mx p (Query r) = p\<lparr>pendingQueue := pendingQueue p @ [r]\<rparr>"
proof -
  from assms have "mx \<le> clients p" and "idle p = 0"
    by (simp_all add: pool_inv_def)
  then show ?thesis
    by (cases "pendingQueue p") (simp_all add: pool_step_def pulseQueue_def)
qed

text \<open>A connection handed back goes to the request at the head of the queue.\<close>

lemma released_connection_goes_to_queue:
  assumes "q \<in> set (in_use p)" and "pendingQueue p = r # waiting"
  shows "pool_step mx p (Finished q True) =
           p\<lparr>in_use := remove1 q (in_use p) @ [r], pendingQueue := waiting\<rparr>"
  using assms by (simp add: pool_step_def pulseQueue_def)

text \<open>
  Claim C9, as amended. The maximum number of connections of the pool is the constant
  5, the same for every environment: the environment sets host, port, user, password
  and database name, and not the size of the pool. After any sequence of queries,
  completions and idle timeouts the pool has at most 5 connections and serves at most
  5 requests at once. A query that arrives while all 5 connections are in use is put at
  the end of the queue, and no connection is opened for it; when a request hands its
  connection back, the request at the head of the queue gets it.
\<close>

theorem pool_of_five_queues:
  "pool_max (pool e) = 5 \<and> pool_max (pool e) = pool_max (pool e') \<and>
   (e ''POSTGRES_HOST'' = Some x \<and> x \<noteq> [] \<longrightarrow> pool_host (pool e) = x) \<and>
   (e ''POSTGRES_PORT'' = Some x \<and> x \<noteq> [] \<longrightarrow> pool_port (pool e) = Number_of x) \<and>
   (e ''POSTGRES_USER'' = Some x \<and> x \<noteq> [] \<longrightarrow> pool_user (pool e) = x) \<and>
   (e ''POSTGRES_PASSWORD'' = Some x \<and> x \<noteq> [] \<longrightarrow> pool_password (pool e) = x) \<and>
   (e ''POSTGRES_DB'' = Some x \<and> x \<noteq> [] \<longrightarrow> pool_database (pool e) = x) \<and>
   clients (pool_after e evs) \<le> 5 \<and>
   length (in_use (pool_after e evs)) \<le> 5 \<and>
   (length (in_use (pool_after e evs)) = 5 \<longrightarrow>
      pool_after e (evs @ [Query r]) =
        (pool_after e evs)\<lparr>pendingQueue := pendingQueue (pool_after e evs) @ [r]\<rparr>) \<and>
   (q \<in> set (in_use (pool_after e evs)) \<and> pendingQueue (pool_after e evs) = r # waiting \<longrightarrow>
      pool_after e (evs @ [Finished q True]) =
        (pool_after e evs)\<lparr>in_use := remove1 q (in_use (pool_after e evs)) @ [r],
                            pendingQueue := waiting\<rparr>)"
proof -
  note inv = pool_after_inv [of e evs]
  have step: "\<And>ev. pool_after e (evs @ [ev]) = pool_step 5 (pool_after e evs) ev"
    by (simp add: pool_after_def pool_def)
  have "clients (pool_after e evs) \<le> 5" and "length (in_use (pool_after e evs)) \<le> 5"
    using inv by (simp_all add: pool_inv_def)
  moreover have "length (in_use (pool_after e evs)) = 5 \<longrightarrow>
      pool_after e (evs @ [Query r]) =
        (pool_after e evs)\<lparr>pendingQueue := pendingQueue (pool_after e evs) @ [r]\<rparr>"
    using full_pool_queues [OF inv] by (simp add: step)
  moreover have "q \<in> set (in_use (pool_after e evs)) \<and> pendingQueue (pool_after e evs) = r # waiting \<longrightarrow>
      pool_after e (evs @ [Finished q True]) =
        (pool_after e evs)\<lparr>in_use := remove1 q (in_use (pool_after e evs)) @ [r],
                            pendingQueue := waiting\<rparr>"
    using released_connection_goes_to_queue [of q "pool_after e evs" r waiting 5] by (simp add: step)
  moreover have "pool_max (pool e) = 5 \<and> pool_max (pool e) = pool_max (pool e') \<and>
   (e ''POSTGRES_HOST'' = Some x \<and> x \<noteq> [] \<longrightarrow> pool_host (pool e) = x) \<and>
   (e ''POSTGRES_PORT'' = Some x \<and> x \<noteq> [] \<longrightarrow> pool_port (pool e) = Number_of x) \<and>
   (e ''POSTGRES_USER'' = Some x \<and> x \<noteq> [] \<longrightarrow> pool_user (pool e) = x) \<and>
   (e ''POSTGRES_PASSWORD'' = Some x \<and> x \<noteq> [] \<longrightarrow> pool_password (pool e) = x) \<and>
   (e ''POSTGRES_DB'' = Some x \<and> x \<noteq> [] \<longrightarrow> pool_database (pool e) = x)"
    by (simp add: pool_def env_or_def)
  ultimately show ?thesis
    by blast
qed

text \<open>Seven queries arrive: five are served, two wait; an eighth waits as well; when the second ends, the sixth is served.\<close>

theorem pool_of_five_queues_witness:
  "all_set_to_10 ''POSTGRES_HOST'' = Some ''10'' \<and> pool_host (pool all_set_to_10) = ''10'' \<and>
   pool_after all_set_to_10 busy_pool =
     \<lparr>clients = 5, idle = 0, in_use = [1, 2, 3, 4, 5], pendingQueue = [6, 7]\<rparr> \<and>
   pool_after all_set_to_10 (busy_pool @ [Query 8]) =
     \<lparr>clients = 5, idle = 0, in_use = [1, 2, 3, 4, 5], pendingQueue = [6, 7, 8]\<rparr> \<and>
   pool_after all_set_to_10 (busy_pool @ [Finished 2 True]) =
     \<lparr>clients = 5, idle = 0, in_use = [1, 3, 4, 5, 6], pendingQueue = [7]\<rparr>"
proof -
  have set: "all_set_to_10 ''POSTGRES_HOST'' = Some ''10'' \<and> ''10'' \<noteq> []"
    by (simp add: all_set_to_10_def)
  have now: "pool_after all_set_to_10 busy_pool =
     \<lparr>clients = 5, idle = 0, in_use = [1, 2, 3, 4, 5], pendingQueue = [6, 7]\<rparr>"
    by code_simp
  note t = pool_of_five_queues [where e = all_set_to_10 and x = "''10''" and evs = busy_pool and r = 8]
  note t' = pool_of_five_queues [where e = all_set_to_10 and evs = busy_pool and q = 2 and r = 6
      and waiting = "[7]"]
  have full: "length (in_use (pool_after all_set_to_10 busy_pool)) = 5"
    by (simp add: now)
  have waits: "2 \<in> set (in_use (pool_after all_set_to_10 busy_pool)) \<and>
      pendingQueue (pool_after all_set_to_10 busy_pool) = 6 # [7]"
    by (simp add: now)
  from t set have "pool_host (pool all_set_to_10) = ''10''"
    by blast
  moreover from t full have "pool_after all_set_to_10 (busy_pool @ [Query 8]) =
      (pool_after all_set_to_10 busy_pool)\<lparr>pendingQueue := pendingQueue (pool_after all_set_to_10 busy_pool) @ [8]\<rparr>"
    by blast
  moreover from t' waits have "pool_after all_set_to_10 (busy_pool @ [Finished 2 True]) =
      (pool_after all_set_to_10 busy_pool)\<lparr>in_use := remove1 2 (in_use (pool_after all_set_to_10 busy_pool)) @ [6],
                            pendingQueue := [7]\<rparr>"
    by blast
  ultimately show ?thesis
    using set by (simp add: now)
qed

text \<open>
  Claim C9 as the specification states it, a maximum taken from the environment,
  fails: in an environment that sets every variable to 10, the host and the port are
  read from it, and the maximum is still 5.
\<close>

theorem pool_max_counterexample:
  "all_set_to_10 ''POSTGRES_HOST'' = Some ''10'' \<and>
   pool_host (pool all_set_to_10) = ''10'' \<and>
   pool_port (pool all_set_to_10) = Number_of ''10'' \<and>
   pool_max (pool all_set_to_10) = 5 \<and>
   pool_max (pool all_set_to_10) \<noteq> 10"
  by (simp add: pool_def all_set_to_10_def env_or_def)

section \<open>What the timing middleware observes\<close>

text \<open>A route registered for \<^verbatim>\<open>GET\<close> takes requests with the verbs \<^verbatim>\<open>GET\<close> and \<^verbatim>\<open>HEAD\<close>.\<close>

lemma on_route_verbs:
  "on_route GET route req \<Longrightarrow> req_method req = GET \<or> req_method req = HEAD"
  by (simp add: on_route_def handles_def)

text \<open>
  The route reported is a registered route that takes the request; when none is
  reported, no route behind the middleware takes it and the framework answers.
\<close>

lemma registered_routes:
  "(GET, ''/items'') \<in> set registered" "(GET, ''/items/:id'') \<in> set registered"
  "(POST, ''/items'') \<in> set registered" "(PUT, ''/items/:id'') \<in> set registered"
  "(DELETE, ''/items/:id'') \<in> set registered" "(GET, ''/healthz'') \<in> set registered"
  by (simp_all add: registered_def)

lemma handled_by:
  assumes "(m, r) \<in> set registered" and "on_route m r req" and "route = Some r"
  shows "(\<forall>r. route = Some r \<longrightarrow> (\<exists>m. (m, r) \<in> set registered \<and> on_route m r req)) \<and>
         (route = None \<longrightarrow>
            res = unhandled req \<and> s' = s \<and>
            (\<forall>(m, r) \<in> set registered. (m, r) \<noteq> (GET, ''/metrics'') \<longrightarrow> \<not> on_route m r req))"
  using assms by blast

lemma routes_label:
  assumes "routes db req body s = (route, res, s')"
  shows "(\<forall>r. route = Some r \<longrightarrow> (\<exists>m. (m, r) \<in> set registered \<and> on_route m r req)) \<and>
         (route = None \<longrightarrow>
            res = unhandled req \<and> s' = s \<and>
            (\<forall>(m, r) \<in> set registered. (m, r) \<noteq> (GET, ''/metrics'') \<longrightarrow> \<not> on_route m r req))"
proof (cases "on_route GET ''/items'' req")
  case True
  with assms  have "route = Some ''/items''"
    by (simp add: routes_def)
  with registered_routes(1) True show ?thesis
    by (rule handled_by)
next
  case n0: False
  show ?thesis
  proof (cases "on_route GET ''/items/:id'' req")
    case True
    with assms n0 have "route = Some ''/items/:id''"
      by (simp add: routes_def)
    with registered_routes(2) True show ?thesis
      by (rule handled_by)
  next
    case n1: False
    show ?thesis
    proof (cases "on_route POST ''/items'' req")
      case True
      with assms n0 n1 have "route = Some ''/items''"
        by (simp add: routes_def)
      with registered_routes(3) True show ?thesis
        by (rule handled_by)
    next
      case n2: False
      show ?thesis
      proof (cases "on_route PUT ''/items/:id'' req")
        case True
        with assms n0 n1 n2 have "route = Some ''/items/:id''"
          by (simp add: routes_def)
        with registered_routes(4) True show ?thesis
          by (rule handled_by)
      next
        case n3: False
        show ?thesis
        proof (cases "on_route DELETE ''/items/:id'' req")
          case True
          with assms n0 n1 n2 n3 have "route = Some ''/items/:id''"
            by (simp add: routes_def)
          with registered_routes(5) True show ?thesis
            by (rule handled_by)
        next
          case n4: False
          show ?thesis
          proof (cases "on_route GET ''/healthz'' req")
            case True
            with assms n0 n1 n2 n3 n4 have "route = Some ''/healthz''"
              by (simp add: routes_def)
            with registered_routes(6) True show ?thesis
              by (rule handled_by)
          next
            case n5: False
            from assms n0 n1 n2 n3 n4 n5 have "route = None" and "res = unhandled req" and "s' = s"
              by (simp_all add: routes_def)
            moreover have "\<forall>(m, r) \<in> set registered. (m, r) \<noteq> (GET, ''/metrics'') \<longrightarrow> \<not> on_route m r req"
              using n0 n1 n2 n3 n4 n5 by (simp add: registered_def)
            ultimately show ?thesis
              by simp
          qed
        qed
      qed
    qed
  qed
qed

lemma statusCode_respond: "statusCode (respond req res) = statusCode res"
  by (simp add: respond_def)

text \<open>
  Claim C8, as amended. A request whose body the parser accepts and that is not a
  \<^verbatim>\<open>GET\<close> or \<^verbatim>\<open>HEAD\<close> on \<^verbatim>\<open>/metrics\<close> adds exactly one observation to the histogram,
  labelled with the request's method, the path of the registered route that took it
  (the request's own path when no route took it) and the status code of the response.
  A \<^verbatim>\<open>GET\<close> or \<^verbatim>\<open>HEAD\<close> on \<^verbatim>\<open>/metrics\<close>, whose route is registered before the timing
  middleware, and a request whose body the parser rejects never reach the middleware:
  they add no observation.
\<close>

theorem timing_observes_what_passes_it:
  "(req_body req = Parsed body \<and> \<not> on_route GET ''/metrics'' req \<longrightarrow>
      (\<exists>route res s'.
         routes db req body s = (route, res, s') \<and>
         app db render req (s, obs) =
           (respond req res, s',
            obs @ [(req_method req,
                    (case route of Some r \<Rightarrow> r | None \<Rightarrow> req_path req),
                    statusCode (respond req res))]) \<and>
         (\<forall>r. route = Some r \<longrightarrow> (\<exists>m. (m, r) \<in> set registered \<and> on_route m r req)) \<and>
         (route = None \<longrightarrow> (\<forall>(m, r) \<in> set registered. \<not> on_route m r req)))) \<and>
   ((\<exists>code. req_body req = Rejected code) \<or> on_route GET ''/metrics'' req \<longrightarrow>
      snd (app db render req (s, obs)) = (s, obs)) \<and>
   (on_route GET ''/metrics'' req \<longrightarrow> req_method req = GET \<or> req_method req = HEAD)"
proof (intro conjI impI)
  assume a: "req_body req = Parsed body \<and> \<not> on_route GET ''/metrics'' req"
  obtain route res s' where r: "routes db req body s = (route, res, s')"
    by (cases "routes db req body s") auto
  have "app db render req (s, obs) =
           (respond req res, s',
            obs @ [(req_method req,
                    (case route of Some r \<Rightarrow> r | None \<Rightarrow> req_path req),
                    statusCode (respond req res))])"
    using a r by (simp add: app_def timed_def statusCode_respond)
  moreover have "\<forall>r. route = Some r \<longrightarrow> (\<exists>m. (m, r) \<in> set registered \<and> on_route m r req)"
    using routes_label [OF r] by blast
  moreover have "route = None \<longrightarrow> (\<forall>(m, r) \<in> set registered. \<not> on_route m r req)"
  proof
    assume "route = None"
    with routes_label [OF r]
    have "\<forall>(m, r) \<in> set registered. (m, r) \<noteq> (GET, ''/metrics'') \<longrightarrow> \<not> on_route m r req"
      by blast
    with a show "\<forall>(m, r) \<in> set registered. \<not> on_route m r req"
      by auto
  qed
  ultimately show "\<exists>route res s'.
         routes db req body s = (route, res, s') \<and>
         app db render req (s, obs) =
           (respond req res, s',
            obs @ [(req_method req,
                    (case route of Some r \<Rightarrow> r | None \<Rightarrow> req_path req),
                    statusCode (respond req res))]) \<and>
         (\<forall>r. route = Some r \<longrightarrow> (\<exists>m. (m, r) \<in> set registered \<and> on_route m r req)) \<and>
         (route = None \<longrightarrow> (\<forall>(m, r) \<in> set registered. \<not> on_route m r req))"
    using r by blast
next
  assume "(\<exists>code. req_body req = Rejected code) \<or> on_route GET ''/metrics'' req"
  then show "snd (app db render req (s, obs)) = (s, obs)"
    by (auto simp: app_def split: parsed_body.splits)
next
  assume "on_route GET ''/metrics'' req"
  then show "req_method req = GET \<or> req_method req = HEAD"
    by (rule on_route_verbs)
qed

text \<open>
  Listing the items, asking for an unknown path, reading item 1 by an escaped path, and
  a \<^verbatim>\<open>HEAD\<close> on the metrics.
\<close>

theorem timing_observes_what_passes_it_witness:
  "app pg_query plain list_request (fresh, []) =
     (json 200 (Json_items []), fresh, [(GET, ''/items'', 200)]) \<and>
   app pg_query plain unknown_request (fresh, []) =
     (json 404 Error_page, fresh, [(GET, ''/nowhere'', 404)]) \<and>
   app pg_query plain escaped_request (stocked, []) =
     (json 200 (Json_item widget), stocked, [(GET, ''/items/:id'', 200)]) \<and>
   on_route GET ''/metrics'' metrics_head_request \<and>
   snd (app pg_query plain metrics_head_request (fresh, [])) = (fresh, [])"
proof -
  have b1: "req_body list_request = Parsed []" and b2: "req_body unknown_request = Parsed []"
    and b3: "req_body escaped_request = Parsed []"
    by (simp_all add: list_request_def unknown_request_def escaped_request_def)
  have n1: "\<not> on_route GET ''/metrics'' list_request"
    by code_simp
  have n2: "\<not> on_route GET ''/metrics'' unknown_request"
    by code_simp
  have n3: "\<not> on_route GET ''/metrics'' escaped_request"
    by code_simp
  have y: "on_route GET ''/metrics'' metrics_head_request"
    by code_simp
  have r1: "routes pg_query list_request [] fresh = (Some ''/items'', json 200 (Json_items []), fresh)"
    by code_simp
  have r2: "routes pg_query unknown_request [] fresh = (None, json 404 Error_page, fresh)"
    by code_simp
  have r3: "routes pg_query escaped_request [] stocked = (Some ''/items/:id'', json 200 (Json_item widget), stocked)"
    by code_simp
  note t1 = timing_observes_what_passes_it [of list_request "[]" pg_query fresh plain "[]", THEN conjunct1, rule_format, OF conjI [OF b1 n1]]
  note t2 = timing_observes_what_passes_it [of unknown_request "[]" pg_query fresh plain "[]", THEN conjunct1, rule_format, OF conjI [OF b2 n2]]
  note t3 = timing_observes_what_passes_it [of escaped_request "[]" pg_query stocked plain "[]", THEN conjunct1, rule_format, OF conjI [OF b3 n3]]
  note t4 = timing_observes_what_passes_it [of metrics_head_request "[]" pg_query fresh plain "[]", THEN conjunct2, THEN conjunct1, rule_format, OF disjI2 [OF y]]
  have "app pg_query plain list_request (fresh, []) =
     (json 200 (Json_items []), fresh, [(GET, ''/items'', 200)])"
    using t1 r1 by (auto simp: json_def list_request_def respond_def)
  moreover have "app pg_query plain unknown_request (fresh, []) =
     (json 404 Error_page, fresh, [(GET, ''/nowhere'', 404)])"
    using t2 r2 by (auto simp: json_def unknown_request_def respond_def)
  moreover have "app pg_query plain escaped_request (stocked, []) =
     (json 200 (Json_item widget), stocked, [(GET, ''/items/:id'', 200)])"
    using t3 r3 by (auto simp: json_def escaped_request_def respond_def)
  ultimately show ?thesis
    using y t4 by simp
qed

text \<open>
  Claim C8 as the specification states it, one observation for every request
  including those to \<^verbatim>\<open>/metrics\<close>, fails: a \<^verbatim>\<open>GET /metrics\<close> is answered 200 and the
  histogram holds afterwards what it held before; so is a \<^verbatim>\<open>HEAD /metrics\<close>.
\<close>

theorem metrics_route_not_observed:
  "req_body metrics_request = Parsed [] \<and>
   fst (app pg_query plain metrics_request (fresh, [])) = json 200 (Text []) \<and>
   snd (snd (app pg_query plain metrics_request (fresh, []))) = [] \<and>
   snd (snd (app pg_query plain metrics_request (fresh, [(GET, ''/items'', 200)]))) = [(GET, ''/items'', 200)] \<and>
   statusCode (fst (app pg_query plain metrics_head_request (fresh, []))) = 200 \<and>
   snd (snd (app pg_query plain metrics_head_request (fresh, []))) = []"
proof (intro conjI)
  show "req_body metrics_request = Parsed []"
    by (simp add: metrics_request_def)
  show "fst (app pg_query plain metrics_request (fresh, [])) = json 200 (Text [])"
    by code_simp
  show "snd (snd (app pg_query plain metrics_request (fresh, []))) = []"
    by code_simp
  show "snd (snd (app pg_query plain metrics_request (fresh, [(GET, ''/items'', 200)]))) = [(GET, ''/items'', 200)]"
    by code_simp
  show "statusCode (fst (app pg_query plain metrics_head_request (fresh, []))) = 200"
    by code_simp
  show "snd (snd (app pg_query plain metrics_head_request (fresh, []))) = []"
    by code_simp
qed

end
